theory Spec2Isabelle
  imports Complex_Main "HOL-Library.Word"
begin

section \<open>The test orchestrator \<open>ContractTest\<close> of \<open>web3py/contract_functions.py\<close>\<close>

text \<open>
  The class drives three accounts through scripted sequences of transactions. Everything
  it does goes through a client library and the node behind it, which are not part of the
  repository. The embedding therefore keeps the program as it is written and takes the
  library as a parameter \<open>env\<close>: a record of functions over an arbitrary world type \<open>'w\<close>,
  each returning either an exception or a value, together with the next world. Every
  theorem holds for every such environment.
\<close>

subsection \<open>Values, exceptions and Python indexing\<close>

type_synonym address = string
type_synonym bytes = "8 word list"

text \<open>
  The exceptions the code can meet. \<open>ValueError\<close> stands for the class and its subclasses,
  which the clause \<^verbatim>\<open>except (ValueError, TimeExhausted)\<close> catches alike; \<open>OtherException\<close>
  is any class outside the ones named here.
\<close>

datatype exn = ValueError | TimeExhausted | IndexError | KeyError | RuntimeError | OtherException

datatype pyval = PInt int | PStr string | PBytes bytes | PBool bool | PNone

text \<open>Python's truth value of an object, as \<^verbatim>\<open>and\<close>, \<^verbatim>\<open>if\<close> and \<^verbatim>\<open>all\<close> take it.\<close>

fun truthy :: "pyval \<Rightarrow> bool" where
  "truthy (PInt n) = (n \<noteq> 0)"
| "truthy (PStr s) = (s \<noteq> [])"
| "truthy (PBytes b) = (b \<noteq> [])"
| "truthy (PBool b) = b"
| "truthy PNone = False"

text \<open>A dict with string keys, in insertion order; \<open>d[k]\<close> raises \<open>KeyError\<close> on a missing key.\<close>

type_synonym pydict = "(string \<times> pyval) list"

definition py_getitem :: "pydict \<Rightarrow> string \<Rightarrow> exn + pyval" where
  "py_getitem d k = (case map_of d k of None \<Rightarrow> Inl KeyError | Some v \<Rightarrow> Inr v)"

text \<open>
  List indexing \<open>xs[i]\<close> and item assignment \<open>xs[i] = v\<close>: a negative index counts from
  the end, and an index out of range raises \<open>IndexError\<close>. \<open>py_pos n i\<close> is the position
  that index \<open>i\<close> denotes in a list of length \<open>n\<close>.
\<close>

definition py_pos :: "nat \<Rightarrow> int \<Rightarrow> nat option" where
  "py_pos n i =
     (let j = (if i < 0 then int n + i else i)
      in if 0 \<le> j \<and> j < int n then Some (nat j) else None)"

definition py_index :: "'a list \<Rightarrow> int \<Rightarrow> exn + 'a" where
  "py_index xs i =
     (case py_pos (length xs) i of None \<Rightarrow> Inl IndexError | Some p \<Rightarrow> Inr (xs ! p))"

definition py_setitem :: "'a list \<Rightarrow> int \<Rightarrow> 'a \<Rightarrow> exn + 'a list" where
  "py_setitem xs i v =
     (case py_pos (length xs) i of None \<Rightarrow> Inl IndexError | Some p \<Rightarrow> Inr (xs[p := v]))"

definition py_range :: "nat \<Rightarrow> int list" where
  "py_range n = map int [0..<n]"

subsection \<open>Contracts, transactions and the client library\<close>

datatype provider = AsyncHTTPProvider string | HTTPProvider string | WebsocketProvider string

datatype artifact = COMPILED_FACTORY_PATH | COMPILED_ORACLE_PATH | COMPILED_CLOUD_SLA_PATH

record contract =
  address :: address
  abi :: artifact

text \<open>The contract functions the code calls, with their arguments.\<close>

datatype contract_fn =
    createChild address address int int int int
  | getSmartContractAddress address
  | Deposit
  | UploadRequest string bytes
  | UploadRequestAck string
  | UploadTransferAck string string
  | ReadRequest string
  | ReadRequestAck string string
  | ReadRequestDeny string
  | FileHashRequest string
  | DigestStore string string
  | FileCheck string
  | DeleteRequest string
  | Delete string

record signed_tx =
  rawTransaction :: bytes

text \<open>What the code prints when \<open>DEBUG\<close> is set: a fixed line, an exception, an address.\<close>

datatype printed = Line string | ExceptionLine exn | AddressLine address

text \<open>
  The environment: the constants of \<open>settings\<close>, the helpers of \<open>utility\<close> that read the
  configuration, and the calls into the client library. A call takes the world and
  returns its outcome and the next world; it returns or raises, it does not hang.
\<close>

record 'w env =
  DEBUG :: bool
  HTTP_URI :: string
  WEB_SOCKET_URI :: string
  get_addresses :: "string \<Rightarrow> exn + address \<times> address"
  get_settings :: "string \<Rightarrow> exn + address list \<times> string list"
  get_contract :: "provider \<Rightarrow> address \<Rightarrow> artifact \<Rightarrow> 'w \<Rightarrow> (exn + contract) \<times> 'w"
  get_transaction_count :: "address \<Rightarrow> 'w \<Rightarrow> (exn + int) \<times> 'w"
  solidityKeccak :: "string list \<Rightarrow> string list \<Rightarrow> exn + bytes"
  call :: "contract \<Rightarrow> contract_fn \<Rightarrow> 'w \<Rightarrow> (exn + address) \<times> 'w"
  buildTransaction :: "contract \<Rightarrow> contract_fn \<Rightarrow> pydict \<Rightarrow> 'w \<Rightarrow> (exn + pydict) \<times> 'w"
  sign_transaction :: "pydict \<Rightarrow> string \<Rightarrow> 'w \<Rightarrow> (exn + signed_tx) \<times> 'w"
  send_raw_transaction :: "bytes \<Rightarrow> 'w \<Rightarrow> (exn + bytes) \<times> 'w"
  wait_for_transaction_receipt :: "bytes \<Rightarrow> 'w \<Rightarrow> (exn + pydict) \<times> 'w"
  sleep :: "rat \<Rightarrow> 'w \<Rightarrow> 'w"
  print :: "printed \<Rightarrow> 'w \<Rightarrow> 'w"

text \<open>
  The history of the calls made into the library, each with its arguments and outcome,
  oldest first. The program never reads it; it is kept to state what the code sends.
\<close>

datatype event =
    EvGetContract provider address artifact "exn + contract"
  | EvTxCount address "exn + int"
  | EvCall contract contract_fn "exn + address"
  | EvBuild contract contract_fn pydict "exn + pydict"
  | EvSign pydict string "exn + signed_tx"
  | EvSend bytes "exn + bytes"
  | EvWait bytes "exn + pydict"
  | EvSleep rat
  | EvPrint printed

subsection \<open>The object and the state of a run\<close>

text \<open>
  The attributes of a \<open>ContractTest\<close> object. \<open>locked\<close> is the state of \<open>self.lock\<close>, a
  \<open>threading.Lock\<close>.
\<close>

record contract_test =
  factory_address :: address
  oracle_address :: address
  accounts :: "address list"
  private_keys :: "string list"
  w3_async :: provider
  w3 :: provider
  locked :: bool
  nonces :: "int list"

record 'w state =
  self :: contract_test
  world :: 'w
  trace :: "event list"

text \<open>
  A call returns a value, raises, or never returns: \<open>Blocked\<close> is \<open>lock.acquire()\<close> on a
  lock that is held, which nothing in a sequential run releases.
\<close>

datatype 'a outcome = Return 'a | Raise exn | Blocked

type_synonym ('a, 'w) prog = "'w state \<Rightarrow> 'a outcome \<times> 'w state"

definition return :: "'a \<Rightarrow> ('a, 'w) prog" where
  "return x s = (Return x, s)"

definition raise :: "exn \<Rightarrow> ('a, 'w) prog" where
  "raise e s = (Raise e, s)"

definition bind :: "('a, 'w) prog \<Rightarrow> ('a \<Rightarrow> ('b, 'w) prog) \<Rightarrow> ('b, 'w) prog" where
  "bind m f s =
     (case m s of
        (Return x, s') \<Rightarrow> f x s'
      | (Raise e, s') \<Rightarrow> (Raise e, s')
      | (Blocked, s') \<Rightarrow> (Blocked, s'))"

definition of_sum :: "exn + 'a \<Rightarrow> ('a, 'w) prog" where
  "of_sum r = (case r of Inl e \<Rightarrow> raise e | Inr x \<Rightarrow> return x)"

text \<open>A statement guarded by a condition, as \<^verbatim>\<open>if c: ...\<close> with no \<^verbatim>\<open>else\<close>.\<close>

definition if_then :: "bool \<Rightarrow> (unit, 'w) prog \<Rightarrow> (unit, 'w) prog" where
  "if_then c m = (if c then m else return ())"

text \<open>
  \<^verbatim>\<open>try: body  except (ValueError, TimeExhausted) as e: handler  else: orelse\<close>.
  The handler runs for the two caught classes only; any other exception of the body
  propagates, and so does one raised by the handler or by the \<^verbatim>\<open>else\<close> block.
\<close>

definition caught :: "exn \<Rightarrow> bool" where
  "caught e = (e = ValueError \<or> e = TimeExhausted)"

definition try_except ::
  "('a, 'w) prog \<Rightarrow> (exn \<Rightarrow> ('b, 'w) prog) \<Rightarrow> ('a \<Rightarrow> ('b, 'w) prog) \<Rightarrow> ('b, 'w) prog" where
  "try_except body handler orelse s =
     (case body s of
        (Return x, s') \<Rightarrow> orelse x s'
      | (Raise e, s') \<Rightarrow> (if caught e then handler e s' else (Raise e, s'))
      | (Blocked, s') \<Rightarrow> (Blocked, s'))"

text \<open>A library call: the world moves on, the history grows by the call.\<close>

definition lib :: "('w \<Rightarrow> (exn + 'a) \<times> 'w) \<Rightarrow> ((exn + 'a) \<Rightarrow> event) \<Rightarrow> ('a, 'w) prog" where
  "lib f ev s =
     (case f (world s) of
        (r, w') \<Rightarrow>
          (case r of Inl e \<Rightarrow> Raise e | Inr x \<Rightarrow> Return x,
           s\<lparr>world := w', trace := trace s @ [ev r]\<rparr>))"

definition lib_get_contract :: "'w env \<Rightarrow> address \<Rightarrow> artifact \<Rightarrow> (contract, 'w) prog" where
  "lib_get_contract env a p s = lib (get_contract env (w3 (self s)) a p) (EvGetContract (w3 (self s)) a p) s"

definition lib_get_transaction_count :: "'w env \<Rightarrow> address \<Rightarrow> (int, 'w) prog" where
  "lib_get_transaction_count env a = lib (get_transaction_count env a) (EvTxCount a)"

definition lib_call :: "'w env \<Rightarrow> contract \<Rightarrow> contract_fn \<Rightarrow> (address, 'w) prog" where
  "lib_call env c fn = lib (call env c fn) (EvCall c fn)"

definition lib_buildTransaction :: "'w env \<Rightarrow> contract \<Rightarrow> contract_fn \<Rightarrow> pydict \<Rightarrow> (pydict, 'w) prog" where
  "lib_buildTransaction env c fn d = lib (buildTransaction env c fn d) (EvBuild c fn d)"

definition lib_sign_transaction :: "'w env \<Rightarrow> pydict \<Rightarrow> string \<Rightarrow> (signed_tx, 'w) prog" where
  "lib_sign_transaction env tx pk = lib (sign_transaction env tx pk) (EvSign tx pk)"

definition lib_send_raw_transaction :: "'w env \<Rightarrow> bytes \<Rightarrow> (bytes, 'w) prog" where
  "lib_send_raw_transaction env raw = lib (send_raw_transaction env raw) (EvSend raw)"

definition lib_wait_for_transaction_receipt :: "'w env \<Rightarrow> bytes \<Rightarrow> (pydict, 'w) prog" where
  "lib_wait_for_transaction_receipt env h = lib (wait_for_transaction_receipt env h) (EvWait h)"

text \<open>
  \<^verbatim>\<open>await asyncio.sleep(d)\<close> for a task that is alone on its loop: the world sleeps and
  the task goes on. That another task may run meanwhile is not in this definition; the
  event loop of the nonce manager, below, has it.
\<close>

definition lib_sleep :: "'w env \<Rightarrow> rat \<Rightarrow> (unit, 'w) prog" where
  "lib_sleep env d s = (Return (), s\<lparr>world := sleep env d (world s), trace := trace s @ [EvSleep d]\<rparr>)"

definition lib_print :: "'w env \<Rightarrow> printed \<Rightarrow> (unit, 'w) prog" where
  "lib_print env out s = (Return (), s\<lparr>world := print env out (world s), trace := trace s @ [EvPrint out]\<rparr>)"

text \<open>Reads and writes of the attributes of \<open>self\<close>.\<close>

definition self_accounts :: "int \<Rightarrow> (address, 'w) prog" where
  "self_accounts i s = of_sum (py_index (accounts (self s)) i) s"

definition self_private_keys :: "int \<Rightarrow> (string, 'w) prog" where
  "self_private_keys i s = of_sum (py_index (private_keys (self s)) i) s"

definition self_nonces :: "int \<Rightarrow> (int, 'w) prog" where
  "self_nonces i s = of_sum (py_index (nonces (self s)) i) s"

definition set_self_nonces :: "int \<Rightarrow> int \<Rightarrow> (unit, 'w) prog" where
  "set_self_nonces i v s =
     (case py_setitem (nonces (self s)) i v of
        Inl e \<Rightarrow> (Raise e, s)
      | Inr ns \<Rightarrow> (Return (), s\<lparr>self := (self s)\<lparr>nonces := ns\<rparr>\<rparr>))"

definition lock_acquire :: "(unit, 'w) prog" where
  "lock_acquire s =
     (if locked (self s) then (Blocked, s)
      else (Return (), s\<lparr>self := (self s)\<lparr>locked := True\<rparr>\<rparr>))"

definition lock_release :: "(unit, 'w) prog" where
  "lock_release s =
     (if locked (self s) then (Return (), s\<lparr>self := (self s)\<lparr>locked := False\<rparr>\<rparr>)
      else (Raise RuntimeError, s))"

subsection \<open>The constructor and the nonce manager\<close>

text \<open>
  \<^verbatim>\<open>__init__\<close>, lines 19 to 40: the attributes are assigned one after the other to an
  object that starts without any; \<open>blank\<close> is that object. The two clients are kept as
  the providers they are made of; the middleware of line 35 configures the library and
  belongs to the environment. The loop of lines 39 and 40 appends one transaction count
  per index of \<open>range(3)\<close>.
\<close>

definition blank :: contract_test where
  "blank = \<lparr>factory_address = [], oracle_address = [], accounts = [], private_keys = [],
            w3_async = AsyncHTTPProvider [], w3 = HTTPProvider [], locked = False, nonces = []\<rparr>"

definition assign :: "(contract_test \<Rightarrow> contract_test) \<Rightarrow> (unit, 'w) prog" where
  "assign f s = (Return (), s\<lparr>self := f (self s)\<rparr>)"

fun init_loop :: "'w env \<Rightarrow> int list \<Rightarrow> (unit, 'w) prog" where
  "init_loop env [] = return ()"
| "init_loop env (idx # rest) =
     bind (self_accounts idx) (\<lambda>a.
     bind (lib_get_transaction_count env a) (\<lambda>n.
     bind (assign (\<lambda>ob. ob\<lparr>nonces := nonces ob @ [n]\<rparr>)) (\<lambda>_.
     init_loop env rest)))"

definition init :: "'w env \<Rightarrow> string \<Rightarrow> (unit, 'w) prog" where
  "init env blockchain =
     bind (of_sum (get_addresses env blockchain)) (\<lambda>(fa, oa).
     bind (assign (\<lambda>ob. ob\<lparr>factory_address := fa, oracle_address := oa\<rparr>)) (\<lambda>_.
     bind (of_sum (get_settings env blockchain)) (\<lambda>(acs, pks).
     bind (assign (\<lambda>ob. ob\<lparr>accounts := acs, private_keys := pks\<rparr>)) (\<lambda>_.
     bind (assign (\<lambda>ob. ob\<lparr>w3_async := AsyncHTTPProvider (HTTP_URI env)\<rparr>)) (\<lambda>_.
     bind (assign (\<lambda>ob. ob\<lparr>w3 := (if blockchain = ''polygon'' then HTTPProvider (HTTP_URI env)
                                     else WebsocketProvider (WEB_SOCKET_URI env))\<rparr>)) (\<lambda>_.
     bind (assign (\<lambda>ob. ob\<lparr>locked := False\<rparr>)) (\<lambda>_.
     bind (assign (\<lambda>ob. ob\<lparr>nonces := []\<rparr>)) (\<lambda>_.
     init_loop env (py_range 3)))))))))"

text \<open>\<open>get_nonce\<close>, lines 42 to 44.\<close>

definition get_nonce :: "'w env \<Rightarrow> int \<Rightarrow> (int, 'w) prog" where
  "get_nonce env idx =
     bind (self_accounts idx) (\<lambda>a.
     bind (lib_get_transaction_count env a) (\<lambda>nonce.
     return nonce))"

text \<open>
  The argument of \<^verbatim>\<open>asyncio.sleep(.1)\<close>: the literal \<^verbatim>\<open>.1\<close> is a double, and this is
  its value.
\<close>

definition delay :: rat where
  "delay = 3602879701896397 / 36028797018963968"

text \<open>
  \<open>get_nonce_lock\<close>, lines 46 to 52, as one caller runs it when no other task of the loop
  runs during the \<^verbatim>\<open>await\<close> of line 48: the world sleeps and the caller goes on. What a
  second task does during that \<^verbatim>\<open>await\<close> is the matter of the event loop further below,
  which runs the same lines in two parts.
\<close>

definition get_nonce_lock :: "'w env \<Rightarrow> int \<Rightarrow> (int, 'w) prog" where
  "get_nonce_lock env idx =
     bind lock_acquire (\<lambda>_.
     bind (lib_sleep env delay) (\<lambda>_.
     bind (self_nonces idx) (\<lambda>tmp.
     bind (self_nonces idx) (\<lambda>cur.
     bind (set_self_nonces idx (cur + 1)) (\<lambda>_.
     bind lock_release (\<lambda>_.
     return tmp))))))"

text \<open>
  The same method with line 48, the delay, taken out: the comparison of the delay's
  effect is against this definition.
\<close>

definition get_nonce_lock_no_delay :: "int \<Rightarrow> (int, 'w) prog" where
  "get_nonce_lock_no_delay idx =
     bind lock_acquire (\<lambda>_.
     bind (self_nonces idx) (\<lambda>tmp.
     bind (self_nonces idx) (\<lambda>cur.
     bind (set_self_nonces idx (cur + 1)) (\<lambda>_.
     bind lock_release (\<lambda>_.
     return tmp)))))"

text \<open>\<open>update_nonces\<close>, lines 54 to 58; the loop runs over \<open>range(3)\<close>.\<close>

fun update_nonces_loop :: "'w env \<Rightarrow> int list \<Rightarrow> (unit, 'w) prog" where
  "update_nonces_loop env [] = return ()"
| "update_nonces_loop env (i # rest) =
     bind (self_accounts i) (\<lambda>a.
     bind (lib_get_transaction_count env a) (\<lambda>n.
     bind (set_self_nonces i n) (\<lambda>_.
     update_nonces_loop env rest)))"

definition update_nonces :: "'w env \<Rightarrow> (unit, 'w) prog" where
  "update_nonces env =
     bind lock_acquire (\<lambda>_.
     bind (update_nonces_loop env (py_range 3)) (\<lambda>_.
     lock_release))"

subsection \<open>The nonce manager on an event loop\<close>

text \<open>Lines 49 to 52 of \<open>get_nonce_lock\<close>: what the caller does once the sleep is over.\<close>

definition get_nonce_lock_rest :: "int \<Rightarrow> (int, 'w) prog" where
  "get_nonce_lock_rest idx =
     bind (self_nonces idx) (\<lambda>tmp.
     bind (self_nonces idx) (\<lambda>cur.
     bind (set_self_nonces idx (cur + 1)) (\<lambda>_.
     bind lock_release (\<lambda>_.
     return tmp))))"

text \<open>
  A call of \<open>get_nonce_lock(idx)\<close> as a task of an event loop is at one of two places:
  about to run line 47, or suspended in the \<^verbatim>\<open>await\<close> of line 48 with the lock taken.
  \<open>EnteringNoDelay\<close> is a call of the method without line 48, about to start; it has no
  \<^verbatim>\<open>await\<close> and so no place to be suspended at.
\<close>

datatype coroutine = Entering int | Suspended int | EnteringNoDelay int

text \<open>
  What a task does when the loop lets it run: it goes on until it suspends itself for a time,
  or ends with a value or an exception, or it is stuck in \<^verbatim>\<open>lock.acquire()\<close> on a lock that
  is held. \<open>asyncio.sleep\<close> with a positive delay suspends the task.
\<close>

datatype progress = Suspends rat coroutine | Completes "exn + int" | Stuck

fun resume :: "coroutine \<Rightarrow> 'w state \<Rightarrow> progress \<times> 'w state" where
  "resume (Entering idx) s =
     (case lock_acquire s of
        (Return _, s') \<Rightarrow> (Suspends delay (Suspended idx), s')
      | (Raise e, s') \<Rightarrow> (Completes (Inl e), s')
      | (Blocked, s') \<Rightarrow> (Stuck, s'))"
| "resume (Suspended idx) s =
     (case get_nonce_lock_rest idx s of
        (Return v, s') \<Rightarrow> (Completes (Inr v), s')
      | (Raise e, s') \<Rightarrow> (Completes (Inl e), s')
      | (Blocked, s') \<Rightarrow> (Stuck, s'))"
| "resume (EnteringNoDelay idx) s =
     (case get_nonce_lock_no_delay idx s of
        (Return v, s') \<Rightarrow> (Completes (Inr v), s')
      | (Raise e, s') \<Rightarrow> (Completes (Inl e), s')
      | (Blocked, s') \<Rightarrow> (Stuck, s'))"

text \<open>The number of times a task can still be run.\<close>

fun runs_left :: "coroutine \<Rightarrow> nat" where
  "runs_left (Entering idx) = 2"
| "runs_left (Suspended idx) = 1"
| "runs_left (EnteringNoDelay idx) = 1"

text \<open>
  One event loop, one thread. The tasks that are ready run one at a time, in the order they
  became ready, each until it suspends or ends; a task that suspends waits for its timer.
  When no task is ready the loop waits for the first timer, the world sleeps that long, and
  the task of that timer is ready again. A task stuck in \<^verbatim>\<open>lock.acquire()\<close> holds the
  thread: no other task runs, nothing releases the lock, and the loop never returns. The
  result is the list of the tasks that ended, each with its number and its value or
  exception, in the order they ended.
\<close>

function event_loop ::
  "'w env \<Rightarrow> (nat \<times> coroutine) list \<Rightarrow> (nat \<times> rat \<times> coroutine) list \<Rightarrow> (nat \<times> (exn + int)) list \<Rightarrow>
     ((nat \<times> (exn + int)) list, 'w) prog" where
  "event_loop env [] [] ended s = (Return ended, s)"
| "event_loop env [] ((tid, d, co) # sleeping) ended s =
     event_loop env [(tid, co)] sleeping ended
       (s\<lparr>world := sleep env d (world s), trace := trace s @ [EvSleep d]\<rparr>)"
| "event_loop env ((tid, co) # ready) sleeping ended s =
     (case resume co s of
        (Suspends d co', s') \<Rightarrow> event_loop env ready (sleeping @ [(tid, d, co')]) ended s'
      | (Completes r, s') \<Rightarrow> event_loop env ready sleeping (ended @ [(tid, r)]) s'
      | (Stuck, s') \<Rightarrow> (Blocked, s'))"
  by pat_completeness auto

termination
proof (relation "measure (\<lambda>(env, ready, sleeping, ended, s).
        (\<Sum>(tid, co) \<leftarrow> ready. 2 * runs_left co) + (\<Sum>(tid, d, co) \<leftarrow> sleeping. 2 * runs_left co + 1))",
    goal_cases)
  case 1
  show ?case by simp
next
  case (2 env tid d co sleeping ended s)
  show ?case by simp
next
  case (3 env tid co ready sleeping ended s x y d co')
  then have "resume co s = (Suspends d co', y)" by simp
  then have "runs_left co' < runs_left co"
    by (cases co) (auto split: prod.splits outcome.splits)
  then show ?case by simp
next
  case (4 env tid co ready sleeping ended s x y r)
  have "0 < runs_left co" by (cases co) simp_all
  then show ?case by simp
qed

text \<open>\<^verbatim>\<open>asyncio.gather\<close> of the tasks: all are ready, in their order, and numbered from 0.\<close>

definition gather :: "'w env \<Rightarrow> coroutine list \<Rightarrow> ((nat \<times> (exn + int)) list, 'w) prog" where
  "gather env tasks = event_loop env (enumerate 0 tasks) [] []"

subsection \<open>Submitting a transaction\<close>

text \<open>\<open>sign_send_transaction\<close>, lines 60 to 70.\<close>

definition sign_send_transaction :: "'w env \<Rightarrow> pydict \<Rightarrow> string \<Rightarrow> (pyval, 'w) prog" where
  "sign_send_transaction env tx pk =
     try_except
       (bind (lib_sign_transaction env tx pk) (\<lambda>signed_tx.
        bind (lib_send_raw_transaction env (rawTransaction signed_tx)) (\<lambda>tx_hash.
        bind (lib_wait_for_transaction_receipt env tx_hash) (\<lambda>tx_receipt.
        return tx_receipt))))
       (\<lambda>e. bind (if_then (DEBUG env) (lib_print env (ExceptionLine e))) (\<lambda>_.
             return (PInt 0)))
       (\<lambda>tx_receipt. of_sum (py_getitem tx_receipt ''status''))"

subsection \<open>The scenarios\<close>

text \<open>Reading an attribute of \<open>self\<close>.\<close>

definition get_self :: "(contract_test \<Rightarrow> 'a) \<Rightarrow> ('a, 'w) prog" where
  "get_self f s = (Return (f (self s)), s)"

text \<open>\<^verbatim>\<open>Web3.toWei(number, 'ether')\<close>: one ether is \<open>10 ^ 18\<close> wei.\<close>

definition toWei_ether :: "rat \<Rightarrow> int" where
  "toWei_ether number = \<lfloor>number * 10 ^ 18\<rfloor>"

text \<open>
  Modelled from the spec: \<open>check_statuses\<close> of \<open>utility\<close> is not among the sources. The spec
  has each scenario "fold a list of receipt-status booleans with logical AND"; a status is
  taken as a boolean by its truth value.
\<close>

definition check_statuses :: "pyval list \<Rightarrow> bool" where
  "check_statuses statuses = fold (\<lambda>status acc. acc \<and> truthy status) statuses True"

text \<open>\<open>cloud_sla_creation_activation\<close>, lines 72 to 122.\<close>

definition cloud_sla_creation_activation :: "'w env \<Rightarrow> (address \<times> bool, 'w) prog" where
  "cloud_sla_creation_activation env =
     (let statuses = [];
          price = toWei_ether (1 / 1000);
          test_validity_duration = 60 ^ 2
      in
     bind (get_self factory_address) (\<lambda>fa.
     bind (lib_get_contract env fa COMPILED_FACTORY_PATH) (\<lambda>contract_factory.
     bind (get_self oracle_address) (\<lambda>oa.
     bind (lib_get_contract env oa COMPILED_ORACLE_PATH) (\<lambda>contract_oracle.
     bind (self_accounts 1) (\<lambda>user.
     bind (self_accounts 0) (\<lambda>sender.
     bind (get_nonce env 0) (\<lambda>nonce.
     bind (lib_buildTransaction env contract_factory
             (createChild (address contract_oracle) user price test_validity_duration 1 1)
             [(''gasPrice'', PInt 0), (''from'', PStr sender), (''nonce'', PInt nonce)])
          (\<lambda>tx_create_child.
     bind (self_private_keys 0) (\<lambda>pk.
     bind (sign_send_transaction env tx_create_child pk) (\<lambda>status.
     let statuses = statuses @ [status] in
     bind (self_accounts 1) (\<lambda>user.
     bind (lib_call env contract_factory (getSmartContractAddress user)) (\<lambda>tx_sm_address.
     bind (lib_get_contract env tx_sm_address COMPILED_CLOUD_SLA_PATH) (\<lambda>contract_cloud_sla.
     bind (self_accounts 1) (\<lambda>sender.
     bind (get_nonce env 1) (\<lambda>nonce.
     bind (lib_buildTransaction env contract_cloud_sla Deposit
             [(''gasPrice'', PInt 0), (''from'', PStr sender), (''nonce'', PInt nonce),
              (''value'', PInt price)])
          (\<lambda>tx_deposit.
     bind (self_private_keys 1) (\<lambda>pk.
     bind (sign_send_transaction env tx_deposit pk) (\<lambda>status.
     let statuses = statuses @ [status];
         all_statuses = check_statuses statuses
     in
     bind (if_then (all_statuses \<and> DEBUG env)
             (bind (lib_print env (Line ''CloudSLA creation and activation: OK'')) (\<lambda>_.
              lib_print env (AddressLine tx_sm_address)))) (\<lambda>_.
     return (tx_sm_address, all_statuses)))))))))))))))))))))"

text \<open>\<open>sequence_upload\<close>, lines 124 to 166.\<close>

definition sequence_upload :: "'w env \<Rightarrow> address \<Rightarrow> string \<Rightarrow> string \<Rightarrow> (bool, 'w) prog" where
  "sequence_upload env cloud_address filepath hash_digest =
     (let statuses = [] in
     bind (lib_get_contract env cloud_address COMPILED_CLOUD_SLA_PATH) (\<lambda>contract_cloud_sla.
     bind (of_sum (solidityKeccak env [''bytes32''] [hash_digest])) (\<lambda>challenge.
     bind (self_accounts 1) (\<lambda>sender.
     bind (get_nonce env 1) (\<lambda>nonce.
     bind (lib_buildTransaction env contract_cloud_sla (UploadRequest filepath challenge)
             [(''gasPrice'', PInt 0), (''from'', PStr sender), (''nonce'', PInt nonce)])
          (\<lambda>tx_upload_request.
     bind (self_private_keys 1) (\<lambda>pk.
     bind (sign_send_transaction env tx_upload_request pk) (\<lambda>status.
     let statuses = statuses @ [status] in
     bind (self_accounts 0) (\<lambda>sender.
     bind (get_nonce env 0) (\<lambda>nonce.
     bind (lib_buildTransaction env contract_cloud_sla (UploadRequestAck filepath)
             [(''gasPrice'', PInt 0), (''from'', PStr sender), (''nonce'', PInt nonce)])
          (\<lambda>tx_upload_request_ack.
     bind (self_private_keys 0) (\<lambda>pk.
     bind (sign_send_transaction env tx_upload_request_ack pk) (\<lambda>status.
     let statuses = statuses @ [status] in
     bind (self_accounts 0) (\<lambda>sender.
     bind (get_nonce env 0) (\<lambda>nonce.
     bind (lib_buildTransaction env contract_cloud_sla (UploadTransferAck filepath hash_digest)
             [(''gasPrice'', PInt 0), (''from'', PStr sender), (''nonce'', PInt nonce)])
          (\<lambda>tx_upload_transfer_ack.
     bind (self_private_keys 0) (\<lambda>pk.
     bind (sign_send_transaction env tx_upload_transfer_ack pk) (\<lambda>status.
     let statuses = statuses @ [status];
         all_statuses = check_statuses statuses
     in
     return all_statuses))))))))))))))))))"

text \<open>\<open>sequence_read\<close>, lines 168 to 196.\<close>

definition sequence_read :: "'w env \<Rightarrow> address \<Rightarrow> string \<Rightarrow> string \<Rightarrow> (bool, 'w) prog" where
  "sequence_read env cloud_address filepath url =
     (let statuses = [] in
     bind (lib_get_contract env cloud_address COMPILED_CLOUD_SLA_PATH) (\<lambda>contract_cloud_sla.
     bind (self_accounts 1) (\<lambda>sender.
     bind (get_nonce env 1) (\<lambda>nonce.
     bind (lib_buildTransaction env contract_cloud_sla (ReadRequest filepath)
             [(''gasPrice'', PInt 0), (''from'', PStr sender), (''nonce'', PInt nonce)])
          (\<lambda>tx_read_request.
     bind (self_private_keys 1) (\<lambda>pk.
     bind (sign_send_transaction env tx_read_request pk) (\<lambda>status.
     let statuses = statuses @ [status] in
     bind (self_accounts 0) (\<lambda>sender.
     bind (get_nonce env 0) (\<lambda>nonce.
     bind (lib_buildTransaction env contract_cloud_sla (ReadRequestAck filepath url)
             [(''gasPrice'', PInt 0), (''from'', PStr sender), (''nonce'', PInt nonce)])
          (\<lambda>tx_read_request_ack.
     bind (self_private_keys 0) (\<lambda>pk.
     bind (sign_send_transaction env tx_read_request_ack pk) (\<lambda>status.
     let statuses = statuses @ [status];
         all_statuses = check_statuses statuses
     in
     return all_statuses))))))))))))"

text \<open>\<open>sequence_file\<close>, lines 198 to 236.\<close>

definition sequence_file ::
  "'w env \<Rightarrow> address \<Rightarrow> string \<Rightarrow> string \<Rightarrow> string \<Rightarrow> (bool, 'w) prog" where
  "sequence_file env cloud_address filepath url hash_digest =
     (let statuses = [] in
     bind (lib_get_contract env cloud_address COMPILED_CLOUD_SLA_PATH) (\<lambda>contract_cloud_sla.
     bind (get_self oracle_address) (\<lambda>oa.
     bind (lib_get_contract env oa COMPILED_ORACLE_PATH) (\<lambda>contract_oracle.
     bind (self_accounts 1) (\<lambda>sender.
     bind (get_nonce env 1) (\<lambda>nonce.
     bind (lib_buildTransaction env contract_cloud_sla (FileHashRequest filepath)
             [(''gasPrice'', PInt 0), (''from'', PStr sender), (''nonce'', PInt nonce)])
          (\<lambda>tx_file_hash_request.
     bind (self_private_keys 1) (\<lambda>pk.
     bind (sign_send_transaction env tx_file_hash_request pk) (\<lambda>status.
     let statuses = statuses @ [status] in
     bind (self_accounts 2) (\<lambda>sender.
     bind (get_nonce env 2) (\<lambda>nonce.
     bind (lib_buildTransaction env contract_oracle (DigestStore url hash_digest)
             [(''gasPrice'', PInt 0), (''from'', PStr sender), (''nonce'', PInt nonce)])
          (\<lambda>tx_digit_store.
     bind (self_private_keys 2) (\<lambda>pk.
     bind (sign_send_transaction env tx_digit_store pk) (\<lambda>status.
     let statuses = statuses @ [status] in
     bind (self_accounts 1) (\<lambda>sender.
     bind (get_nonce env 1) (\<lambda>nonce.
     bind (lib_buildTransaction env contract_cloud_sla (FileCheck filepath)
             [(''gasPrice'', PInt 0), (''from'', PStr sender), (''nonce'', PInt nonce)])
          (\<lambda>tx_file_check.
     bind (self_private_keys 1) (\<lambda>pk.
     bind (sign_send_transaction env tx_file_check pk) (\<lambda>status.
     let statuses = statuses @ [status];
         all_statuses = check_statuses statuses
     in
     return all_statuses)))))))))))))))))))"

text \<open>
  \<open>delete\<close>, lines 262 to 295 (\<open>delete_file\<close> here), and \<open>read_deny_lost_file_check\<close>,
  lines 322 to 355; the file paths are the constants of lines 266 and 326.
\<close>

definition delete_file :: "'w env \<Rightarrow> address \<Rightarrow> (bool, 'w) prog" where
  "delete_file env cloud_address =
     (let statuses = [];
          filepath = ''test.pdf''
      in
     bind (lib_get_contract env cloud_address COMPILED_CLOUD_SLA_PATH) (\<lambda>contract_cloud_sla.
     bind (self_accounts 1) (\<lambda>sender.
     bind (get_nonce env 1) (\<lambda>nonce.
     bind (lib_buildTransaction env contract_cloud_sla (DeleteRequest filepath)
             [(''gasPrice'', PInt 0), (''from'', PStr sender), (''nonce'', PInt nonce)])
          (\<lambda>tx_delete_request.
     bind (self_private_keys 1) (\<lambda>pk.
     bind (sign_send_transaction env tx_delete_request pk) (\<lambda>status.
     let statuses = statuses @ [status] in
     bind (self_accounts 0) (\<lambda>sender.
     bind (get_nonce env 0) (\<lambda>nonce.
     bind (lib_buildTransaction env contract_cloud_sla (Delete filepath)
             [(''gasPrice'', PInt 0), (''from'', PStr sender), (''nonce'', PInt nonce)])
          (\<lambda>tx_delete.
     bind (self_private_keys 0) (\<lambda>pk.
     bind (sign_send_transaction env tx_delete pk) (\<lambda>status.
     let statuses = statuses @ [status];
         all_statuses = check_statuses statuses
     in
     bind (if_then (all_statuses \<and> DEBUG env) (lib_print env (Line ''Delete: OK''))) (\<lambda>_.
     return all_statuses)))))))))))))"

definition read_deny_lost_file_check :: "'w env \<Rightarrow> address \<Rightarrow> (bool, 'w) prog" where
  "read_deny_lost_file_check env cloud_address =
     (let statuses = [];
          filepath = ''test2.pdf''
      in
     bind (lib_get_contract env cloud_address COMPILED_CLOUD_SLA_PATH) (\<lambda>contract_cloud_sla.
     bind (self_accounts 1) (\<lambda>sender.
     bind (get_nonce env 1) (\<lambda>nonce.
     bind (lib_buildTransaction env contract_cloud_sla (ReadRequest filepath)
             [(''gasPrice'', PInt 0), (''from'', PStr sender), (''nonce'', PInt nonce)])
          (\<lambda>tx_read_request.
     bind (self_private_keys 1) (\<lambda>pk.
     bind (sign_send_transaction env tx_read_request pk) (\<lambda>status.
     let statuses = statuses @ [status] in
     bind (self_accounts 0) (\<lambda>sender.
     bind (get_nonce env 0) (\<lambda>nonce.
     bind (lib_buildTransaction env contract_cloud_sla (ReadRequestDeny filepath)
             [(''gasPrice'', PInt 0), (''from'', PStr sender), (''nonce'', PInt nonce)])
          (\<lambda>tx_read_request_deny.
     bind (self_private_keys 0) (\<lambda>pk.
     bind (sign_send_transaction env tx_read_request_deny pk) (\<lambda>status.
     let statuses = statuses @ [status];
         all_statuses = check_statuses statuses
     in
     bind (if_then (all_statuses \<and> DEBUG env)
             (lib_print env (Line ''Read Deny with lost file check: OK''))) (\<lambda>_.
     return all_statuses)))))))))))))"

text \<open>
  \<open>another_file_upload_read\<close>, lines 357 to 369. \<^verbatim>\<open>a and b\<close> on two booleans is their
  conjunction; both sequences have run before it is taken.
\<close>

definition another_file_upload_read :: "'w env \<Rightarrow> address \<Rightarrow> (bool, 'w) prog" where
  "another_file_upload_read env cloud_address =
     (let filepath = ''test3.pdf'';
          url = ''www.test3.com'';
          hash_digest = ''0x2f86d081884c7d659a2feaa0c55ad015a3bf4f1b2b0b822cd15d6c15b0f00a08''
      in
     bind (sequence_upload env cloud_address filepath hash_digest) (\<lambda>all_statuses_upload.
     bind (sequence_read env cloud_address filepath url) (\<lambda>all_statuses_read.
     bind (if_then (all_statuses_upload \<and> all_statuses_read \<and> DEBUG env)
             (lib_print env (Line ''Another file upload + read: OK''))) (\<lambda>_.
     return (all_statuses_upload \<and> all_statuses_read)))))"

subsection \<open>One step of a scenario\<close>

text \<open>
  Every transaction of every scenario goes through the same five lines: read the sender's
  address, look its nonce up, build the transaction from the dict of gas price, sender and
  nonce (and \<open>extra\<close>, the value entry of the deposit), read the sender's key, and submit.
  \<open>step\<close> is that block; its result is the status \<open>sign_send_transaction\<close> returned. The
  scenarios are shown below to be sequences of such steps.
\<close>

definition step :: "'w env \<Rightarrow> int \<Rightarrow> contract \<Rightarrow> contract_fn \<Rightarrow> pydict \<Rightarrow> (pyval, 'w) prog" where
  "step env idx c fn extra =
     bind (self_accounts idx) (\<lambda>sender.
     bind (get_nonce env idx) (\<lambda>nonce.
     bind (lib_buildTransaction env c fn
             ([(''gasPrice'', PInt 0), (''from'', PStr sender), (''nonce'', PInt nonce)] @ extra))
          (\<lambda>tx.
     bind (self_private_keys idx) (\<lambda>pk.
     sign_send_transaction env tx pk))))"

text \<open>The events a run added to the history.\<close>

definition new_events :: "'w state \<Rightarrow> 'w state \<Rightarrow> event list" where
  "new_events s s' = drop (length (trace s)) (trace s')"

subsection \<open>Callers of the nonce manager, one after the other\<close>

text \<open>
  A sequence of completed calls of \<open>get_nonce_lock\<close>, one per index of the list, each
  starting when the one before has returned; the result is the list of the values the
  callers got.
\<close>

fun call_seq :: "'w env \<Rightarrow> int list \<Rightarrow> (int list, 'w) prog" where
  "call_seq env [] = return []"
| "call_seq env (idx # rest) =
     bind (get_nonce_lock env idx) (\<lambda>v.
     bind (call_seq env rest) (\<lambda>vs.
     return (v # vs)))"

text \<open>The attributes of the object other than the nonces and the lock.\<close>

definition same_fields :: "contract_test \<Rightarrow> contract_test \<Rightarrow> bool" where
  "same_fields a b \<longleftrightarrow>
     factory_address a = factory_address b \<and> oracle_address a = oracle_address b \<and>
     accounts a = accounts b \<and> private_keys a = private_keys b \<and>
     w3_async a = w3_async b \<and> w3 a = w3 b"

subsection \<open>A small environment to run the code on\<close>

text \<open>
  A node that counts the transactions it was sent and reports that count for every
  account, builds a transaction by adding the contract's address, refuses to sign with
  the key \<open>k1\<close> (a \<open>ValueError\<close>) and returns a receipt of status 1 for whatever it
  was sent.
\<close>

definition demo_env :: "nat env" where
  "demo_env =
     \<lparr>DEBUG = True,
      HTTP_URI = ''http://node:8545'',
      WEB_SOCKET_URI = ''ws://node:8546'',
      get_addresses = (\<lambda>b. Inr (''0xF'', ''0xO'')),
      get_settings = (\<lambda>b. Inr ([''0xA0'', ''0xA1'', ''0xA2''], [''k0'', ''k1'', ''k2''])),
      get_contract = (\<lambda>p a art w. (Inr \<lparr>address = a, abi = art\<rparr>, w)),
      get_transaction_count = (\<lambda>a w. (Inr (int w), w)),
      solidityKeccak = (\<lambda>ts vs. Inr []),
      call = (\<lambda>c fn w. (Inr ''0xC'', w)),
      buildTransaction = (\<lambda>c fn d w. (Inr ((''to'', PStr (address c)) # d), w)),
      sign_transaction = (\<lambda>tx pk w. if pk = ''k1'' then (Inl ValueError, w)
                                      else (Inr \<lparr>rawTransaction = [1]\<rparr>, w)),
      send_raw_transaction = (\<lambda>raw w. (Inr [2], Suc w)),
      wait_for_transaction_receipt = (\<lambda>h w. (Inr [(''status'', PInt 1)], w)),
      sleep = (\<lambda>d w. w),
      print = (\<lambda>out w. w)\<rparr>"

definition demo_self :: contract_test where
  "demo_self =
     \<lparr>factory_address = ''0xF'', oracle_address = ''0xO'',
      accounts = [''0xA0'', ''0xA1'', ''0xA2''], private_keys = [''k0'', ''k1'', ''k2''],
      w3_async = AsyncHTTPProvider ''http://node:8545'', w3 = WebsocketProvider ''ws://node:8546'',
      locked = False, nonces = [5, 7, 9]\<rparr>"

definition demo_state :: "nat state" where
  "demo_state = \<lparr>self = demo_self, world = 4, trace = []\<rparr>"

subsection \<open>What a run adds to the history\<close>

text \<open>
  The properties of the scenarios are stated on the history. The definitions below describe
  the events one submission and one step can add, and read lists of calls off a history.
\<close>

fun is_print :: "event \<Rightarrow> bool" where
  "is_print (EvPrint out) = True"
| "is_print _ = False"

fun is_build :: "event \<Rightarrow> bool" where
  "is_build (EvBuild c fn d r) = True"
| "is_build _ = False"

text \<open>
  The events of one call of \<open>sign_send_transaction\<close>, whatever its outcome: the signing,
  then, if it returned, the sending of the signed bytes, then, if that returned, the wait
  for the hash; after a failure come the printed lines, if any.
\<close>

definition submit_events :: "pydict \<Rightarrow> string \<Rightarrow> event list \<Rightarrow> bool" where
  "submit_events tx pk evs \<longleftrightarrow>
     (\<exists>e p. evs = EvSign tx pk (Inl e) # p \<and> list_all is_print p) \<or>
     (\<exists>sg e p. evs = EvSign tx pk (Inr sg) # EvSend (rawTransaction sg) (Inl e) # p \<and>
        list_all is_print p) \<or>
     (\<exists>sg h r p. evs = EvSign tx pk (Inr sg) # EvSend (rawTransaction sg) (Inr h) # EvWait h r # p \<and>
        list_all is_print p)"

text \<open>
  The events of a call of \<open>sign_send_transaction\<close> that returned the status \<open>st\<close>: a caught
  failure of one of the three calls with \<open>st\<close> equal to 0, or three calls that returned and
  a receipt whose \<open>status\<close> entry is \<open>st\<close>.
\<close>

definition submit_done :: "pydict \<Rightarrow> string \<Rightarrow> pyval \<Rightarrow> event list \<Rightarrow> bool" where
  "submit_done tx pk st evs \<longleftrightarrow>
     (\<exists>e p. caught e \<and> st = PInt 0 \<and> evs = EvSign tx pk (Inl e) # p \<and> list_all is_print p) \<or>
     (\<exists>sg e p. caught e \<and> st = PInt 0 \<and>
        evs = EvSign tx pk (Inr sg) # EvSend (rawTransaction sg) (Inl e) # p \<and> list_all is_print p) \<or>
     (\<exists>sg h e p. caught e \<and> st = PInt 0 \<and>
        evs = EvSign tx pk (Inr sg) # EvSend (rawTransaction sg) (Inr h) # EvWait h (Inl e) # p \<and>
        list_all is_print p) \<or>
     (\<exists>sg h receipt. map_of receipt ''status'' = Some st \<and>
        evs = [EvSign tx pk (Inr sg), EvSend (rawTransaction sg) (Inr h), EvWait h (Inr receipt)])"

text \<open>The dict a step passes to \<open>buildTransaction\<close> for sender \<open>a\<close> and nonce \<open>n\<close>.\<close>

definition step_dict :: "address \<Rightarrow> int \<Rightarrow> pydict \<Rightarrow> pydict" where
  "step_dict a n extra = [(''gasPrice'', PInt 0), (''from'', PStr a), (''nonce'', PInt n)] @ extra"

text \<open>
  The events of a step that returned the status \<open>st\<close>, and the events of a step whatever
  its outcome: the count lookup for the sender, the build with the dict of that sender
  and that count, and the submission of what was built.
\<close>

definition step_done ::
  "contract_test \<Rightarrow> int \<Rightarrow> contract \<Rightarrow> contract_fn \<Rightarrow> pydict \<Rightarrow> pyval \<Rightarrow> event list \<Rightarrow> bool" where
  "step_done ob idx c fn extra st evs \<longleftrightarrow>
     (\<exists>a n tx pk sub.
        py_index (accounts ob) idx = Inr a \<and> py_index (private_keys ob) idx = Inr pk \<and>
        evs = EvTxCount a (Inr n) # EvBuild c fn (step_dict a n extra) (Inr tx) # sub \<and>
        submit_done tx pk st sub)"

definition step_events ::
  "contract_test \<Rightarrow> int \<Rightarrow> contract \<Rightarrow> contract_fn \<Rightarrow> pydict \<Rightarrow> event list \<Rightarrow> bool" where
  "step_events ob idx c fn extra evs \<longleftrightarrow>
     evs = [] \<or>
     (\<exists>a. py_index (accounts ob) idx = Inr a \<and>
        ((\<exists>e. evs = [EvTxCount a (Inl e)]) \<or>
         (\<exists>n r. evs = [EvTxCount a (Inr n), EvBuild c fn (step_dict a n extra) r]) \<or>
         (\<exists>n tx pk sub. evs = EvTxCount a (Inr n) # EvBuild c fn (step_dict a n extra) (Inr tx) # sub \<and>
            submit_events tx pk sub)))"

text \<open>
  Lists read off a history, in the order of the events: the functions of the calls of
  \<open>buildTransaction\<close>, the transactions built, the transactions passed to
  \<open>sign_transaction\<close>, the signed bytes, the bytes sent, the hashes returned by the sending,
  the hashes waited for, the addresses returned by contract calls, the dicts passed to
  \<open>buildTransaction\<close>.
\<close>

definition collect :: "(event \<Rightarrow> 'a list) \<Rightarrow> event list \<Rightarrow> 'a list" where
  "collect f evs = concat (map f evs)"

fun build_call :: "event \<Rightarrow> contract_fn list" where
  "build_call (EvBuild c fn d r) = [fn]"
| "build_call _ = []"

fun built_tx :: "event \<Rightarrow> pydict list" where
  "built_tx (EvBuild c fn d (Inr tx)) = [tx]"
| "built_tx _ = []"

fun submitted_tx :: "event \<Rightarrow> pydict list" where
  "submitted_tx (EvSign tx pk r) = [tx]"
| "submitted_tx _ = []"

fun signed_raw :: "event \<Rightarrow> bytes list" where
  "signed_raw (EvSign tx pk (Inr sg)) = [rawTransaction sg]"
| "signed_raw _ = []"

fun sent_raw :: "event \<Rightarrow> bytes list" where
  "sent_raw (EvSend raw r) = [raw]"
| "sent_raw _ = []"

fun sent_hash :: "event \<Rightarrow> bytes list" where
  "sent_hash (EvSend raw (Inr h)) = [h]"
| "sent_hash _ = []"

fun waited_hash :: "event \<Rightarrow> bytes list" where
  "waited_hash (EvWait h r) = [h]"
| "waited_hash _ = []"

fun call_result :: "event \<Rightarrow> (contract_fn \<times> address) list" where
  "call_result (EvCall c fn (Inr a)) = [(fn, a)]"
| "call_result _ = []"

fun build_dict :: "event \<Rightarrow> pydict list" where
  "build_dict (EvBuild c fn d r) = [d]"
| "build_dict _ = []"

text \<open>
  The status of each submission, read off the history: a failed signing, sending or waiting
  counts 0, a receipt counts its \<open>status\<close> entry.
\<close>

fun status_of :: "event \<Rightarrow> pyval list" where
  "status_of (EvSign tx pk (Inl e)) = [PInt 0]"
| "status_of (EvSend raw (Inl e)) = [PInt 0]"
| "status_of (EvWait h (Inl e)) = [PInt 0]"
| "status_of (EvWait h (Inr receipt)) = (case map_of receipt ''status'' of None \<Rightarrow> [] | Some st \<Rightarrow> [st])"
| "status_of _ = []"

text \<open>
  A history in which the functions \<open>fns\<close> were built once each and in that order, every
  build succeeded, every built transaction was passed once to \<open>sign_transaction\<close>, every
  signed transaction was sent once and every hash obtained was waited for once.
\<close>

definition once_each :: "contract_fn list \<Rightarrow> event list \<Rightarrow> bool" where
  "once_each fns evs \<longleftrightarrow>
     collect build_call evs = fns \<and>
     length (collect built_tx evs) = length fns \<and>
     collect submitted_tx evs = collect built_tx evs \<and>
     collect sent_raw evs = collect signed_raw evs \<and>
     collect waited_hash evs = collect sent_hash evs"

text \<open>The three readings of a history that the claims about returning runs use.\<close>

definition summary ::
  "contract_fn list \<Rightarrow> pyval list \<Rightarrow> (contract_fn \<times> address) list \<Rightarrow> event list \<Rightarrow> bool" where
  "summary fns sts calls evs \<longleftrightarrow>
     once_each fns evs \<and> collect status_of evs = sts \<and> collect call_result evs = calls"

text \<open>The digest of line 361.\<close>

definition upload_read_digest :: string where
  "upload_read_digest = ''0x2f86d081884c7d659a2feaa0c55ad015a3bf4f1b2b0b822cd15d6c15b0f00a08''"

text \<open>
  \<open>keeps T m\<close>: every run of \<open>m\<close>, whatever its outcome, leaves the object unchanged and adds
  to the history events that satisfy \<open>T\<close>. \<open>T\<close> is \<open>admissible\<close> when it holds of no events, of
  two admissible runs one after the other, and of any single event that is not a build.
\<close>

definition keeps :: "(contract_test \<Rightarrow> event list \<Rightarrow> bool) \<Rightarrow> ('a, 'w) prog \<Rightarrow> bool" where
  "keeps T m \<longleftrightarrow>
     (\<forall>s. self (snd (m s)) = self s \<and>
          (\<exists>evs. trace (snd (m s)) = trace s @ evs \<and> T (self s) evs))"

definition admissible :: "(contract_test \<Rightarrow> event list \<Rightarrow> bool) \<Rightarrow> bool" where
  "admissible T \<longleftrightarrow>
     (\<forall>ob. T ob []) \<and> (\<forall>ob xs ys. T ob xs \<and> T ob ys \<longrightarrow> T ob (xs @ ys)) \<and>
     (\<forall>ob e. \<not> is_build e \<longrightarrow> T ob [e])"

text \<open>
  The steps the scenarios take: an index among 0, 1 and 2, a value entry for the deposit
  and for nothing else, and the price as the third argument of \<open>createChild\<close>.
\<close>

definition step_ok :: "int \<Rightarrow> contract_fn \<Rightarrow> pydict \<Rightarrow> bool" where
  "step_ok idx fn extra \<longleftrightarrow>
     idx \<in> {0, 1, 2} \<and>
     (case fn of
        Deposit \<Rightarrow> extra = [(''value'', PInt (toWei_ether (1 / 1000)))]
      | createChild oa user price duration x y \<Rightarrow> extra = [] \<and> price = toWei_ether (1 / 1000)
      | _ \<Rightarrow> extra = [])"

text \<open>
  What claim C5 asks of a call of \<open>buildTransaction\<close>: gas price 0, a sender among the
  first three accounts, a value entry exactly for \<open>Deposit\<close> and then equal to the price,
  which is also the price \<open>createChild\<close> is given.
\<close>

definition build_ok :: "contract_test \<Rightarrow> event \<Rightarrow> bool" where
  "build_ok ob ev =
     (case ev of
        EvBuild c fn d r \<Rightarrow>
          map_of d ''gasPrice'' = Some (PInt 0) \<and>
          (\<exists>i<3. i < length (accounts ob) \<and> map_of d ''from'' = Some (PStr (accounts ob ! i))) \<and>
          map_of d ''value'' = (if fn = Deposit then Some (PInt (toWei_ether (1 / 1000))) else None) \<and>
          (\<forall>oa user price duration x y.
             fn = createChild oa user price duration x y \<longrightarrow> price = toWei_ether (1 / 1000))
      | _ \<Rightarrow> True)"

text \<open>
  Every call of \<open>buildTransaction\<close> in the history comes right after a transaction-count
  lookup that returned, and its dict has the address of that lookup as sender and the
  count it returned as nonce.
\<close>

fun nonces_fresh :: "event list \<Rightarrow> bool" where
  "nonces_fresh (EvTxCount a (Inr n) # EvBuild c fn d r # evs) =
     (map_of d ''from'' = Some (PStr a) \<and> map_of d ''nonce'' = Some (PInt n) \<and> nonces_fresh evs)"
| "nonces_fresh (EvBuild c fn d r # evs) = False"
| "nonces_fresh (e # evs) = nonces_fresh evs"
| "nonces_fresh [] = True"

definition builds_ok :: "contract_test \<Rightarrow> event list \<Rightarrow> bool" where
  "builds_ok ob evs = list_all (build_ok ob) evs"

text \<open>
  Two states that differ at most in the stored nonces and the lock, and a program that
  cannot tell them apart: same outcome, and states after that again differ at most there.
\<close>

definition agree :: "'w state \<Rightarrow> 'w state \<Rightarrow> bool" where
  "agree s t \<longleftrightarrow> world s = world t \<and> trace s = trace t \<and> same_fields (self s) (self t)"

definition blind :: "('a, 'w) prog \<Rightarrow> bool" where
  "blind m \<longleftrightarrow> (\<forall>s t. agree s t \<longrightarrow> fst (m s) = fst (m t) \<and> agree (snd (m s)) (snd (m t)))"

subsection \<open>What the claims about the scenarios say\<close>

text \<open>
  The result \<open>b\<close> of a scenario of \<open>n\<close> steps against the history \<open>evs\<close> of its run: there are
  \<open>n\<close> statuses, \<open>b\<close> is their conjunction, and a status 0 among them makes \<open>b\<close> false.
\<close>

definition and_of_statuses :: "nat \<Rightarrow> bool \<Rightarrow> event list \<Rightarrow> bool" where
  "and_of_statuses n b evs \<longleftrightarrow>
     length (collect status_of evs) = n \<and>
     b = list_all truthy (collect status_of evs) \<and>
     (PInt 0 \<in> set (collect status_of evs) \<longrightarrow> \<not> b)"

text \<open>The demo object with a second key that the demo node signs with.\<close>

definition demo_state_ok :: "nat state" where
  "demo_state_ok = demo_state\<lparr>self := demo_self\<lparr>private_keys := [''k0'', ''kb'', ''k2'']\<rparr>\<rparr>"

text \<open>
  A run of \<open>m\<close> from \<open>s\<close> has nothing to do with the stored nonces: it leaves the object as it
  was, every transaction it builds carries the count the node has just returned for its
  sender, and the outcome, the world and the history are the same from a state that differs
  from \<open>s\<close> in the nonces and the lock only.
\<close>

definition ignores_nonces :: "('a, 'w) prog \<Rightarrow> 'w state \<Rightarrow> bool" where
  "ignores_nonces m s \<longleftrightarrow>
     self (snd (m s)) = self s \<and>
     nonces_fresh (new_events s (snd (m s))) \<and>
     (\<forall>ns l.
        fst (m (s\<lparr>self := (self s)\<lparr>nonces := ns, locked := l\<rparr>\<rparr>)) = fst (m s) \<and>
        world (snd (m (s\<lparr>self := (self s)\<lparr>nonces := ns, locked := l\<rparr>\<rparr>))) = world (snd (m s)) \<and>
        trace (snd (m (s\<lparr>self := (self s)\<lparr>nonces := ns, locked := l\<rparr>\<rparr>))) = trace (snd (m s)))"

subsection \<open>A library that can fail only in the submission\<close>

text \<open>
  A library whose calls outside the submission never raise, whose signing, sending and
  waiting raise nothing but the two caught classes, and whose receipts have a status. Any
  submission may still fail.
\<close>

definition reliable :: "'w env \<Rightarrow> bool" where
  "reliable env \<longleftrightarrow>
     (\<forall>p a art w. \<exists>c w'. get_contract env p a art w = (Inr c, w')) \<and>
     (\<forall>a w. \<exists>n w'. get_transaction_count env a w = (Inr n, w')) \<and>
     (\<forall>ts vs. \<exists>b. solidityKeccak env ts vs = Inr b) \<and>
     (\<forall>c fn w. \<exists>a w'. call env c fn w = (Inr a, w')) \<and>
     (\<forall>c fn d w. \<exists>tx w'. buildTransaction env c fn d w = (Inr tx, w')) \<and>
     (\<forall>tx pk w e w'. sign_transaction env tx pk w = (Inl e, w') \<longrightarrow> caught e) \<and>
     (\<forall>raw w e w'. send_raw_transaction env raw w = (Inl e, w') \<longrightarrow> caught e) \<and>
     (\<forall>h w e w'. wait_for_transaction_receipt env h w = (Inl e, w') \<longrightarrow> caught e) \<and>
     (\<forall>h w receipt w'. wait_for_transaction_receipt env h w = (Inr receipt, w') \<longrightarrow>
        map_of receipt ''status'' \<noteq> None)"

text \<open>An object with at least the three accounts and keys the scenarios index.\<close>

definition equipped :: "contract_test \<Rightarrow> bool" where
  "equipped ob \<longleftrightarrow> 3 \<le> length (accounts ob) \<and> 3 \<le> length (private_keys ob)"

text \<open>\<open>returns m\<close>: from every state with an equipped object, \<open>m\<close> returns and leaves the object as it was.\<close>

definition returns :: "('a, 'w) prog \<Rightarrow> bool" where
  "returns m \<longleftrightarrow>
     (\<forall>s. equipped (self s) \<longrightarrow> (\<exists>x s'. m s = (Return x, s') \<and> self s' = self s))"

section \<open>Properties\<close>

subsection \<open>Sequencing and indexing\<close>


lemma bind_return [simp]: "bind (return x) f = f x"
  by (rule ext) (simp add: bind_def return_def)

lemma bind_raise [simp]: "bind (raise e) f = raise e"
  by (rule ext) (simp add: bind_def raise_def)

lemma bind_assoc: "bind (bind m f) g = bind m (\<lambda>x. bind (f x) g)"
  by (rule ext) (simp add: bind_def split: prod.splits outcome.splits)

lemma bind_ReturnD:
  "bind m f s = (Return y, s'') \<Longrightarrow> \<exists>x s'. m s = (Return x, s') \<and> f x s' = (Return y, s'')"
  by (auto simp: bind_def split: prod.splits outcome.splits)

lemma py_pos_less: "py_pos n i = Some p \<Longrightarrow> p < n"
  by (auto simp: py_pos_def Let_def split: if_splits)

lemma py_pos_nat: "0 \<le> i \<Longrightarrow> i < int n \<Longrightarrow> py_pos n i = Some (nat i)"
  by (simp add: py_pos_def)

lemma get_nonce_lock_Return:
  "get_nonce_lock env idx s = (Return v, s') \<Longrightarrow>
     \<not> locked (self s) \<and> py_index (nonces (self s)) idx = Inr v \<and>
     py_setitem (nonces (self s)) idx (v + 1) = Inr (nonces (self s')) \<and>
     self s' = (self s)\<lparr>nonces := nonces (self s')\<rparr> \<and>
     world s' = sleep env delay (world s) \<and> trace s' = trace s @ [EvSleep delay]"
  by (auto simp: get_nonce_lock_def bind_def lock_acquire_def lib_sleep_def self_nonces_def
      set_self_nonces_def lock_release_def return_def raise_def of_sum_def
      split: if_splits sum.splits prod.splits outcome.splits)


lemma py_setitem_Inr:
  assumes "py_setitem xs i v = Inr ys" "py_index xs i = Inr a"
  shows "length ys = length xs \<and> py_index ys i = Inr v \<and>
     (\<exists>p < length xs. py_pos (length xs) i = Some p \<and> xs ! p = a \<and> ys = xs[p := v])"
proof -
  obtain p where p: "py_pos (length xs) i = Some p"
    using assms(2) by (auto simp: py_index_def split: option.splits)
  have "p < length xs" by (rule py_pos_less [OF p])
  with p assms show ?thesis by (auto simp: py_setitem_def py_index_def)
qed

lemma py_index_same_length:
  "py_index xs i = Inr a \<Longrightarrow> length ys = length xs \<Longrightarrow> \<exists>b. py_index ys i = Inr b"
  by (auto simp: py_index_def split: option.splits)

lemma py_index_mono:
  assumes "py_index xs i = Inr a" "py_index ys i = Inr b" "length ys = length xs"
    and "\<forall>p < length xs. xs ! p \<le> ys ! p"
  shows "a \<le> (b::int)"
  using assms by (auto simp: py_index_def split: option.splits dest: py_pos_less)

lemma get_nonce_lock_mono:
  assumes "get_nonce_lock env idx s = (Return v, s')"
  shows "length (nonces (self s')) = length (nonces (self s))"
    and "\<forall>p < length (nonces (self s)). nonces (self s) ! p \<le> nonces (self s') ! p"
proof -
  from get_nonce_lock_Return [OF assms]
  have rd: "py_index (nonces (self s)) idx = Inr v"
    and wr: "py_setitem (nonces (self s)) idx (v + 1) = Inr (nonces (self s'))"
    by simp_all
  from py_setitem_Inr [OF wr rd]
  obtain p where len: "length (nonces (self s')) = length (nonces (self s))"
    and p: "p < length (nonces (self s))" "nonces (self s) ! p = v"
    and upd: "nonces (self s') = (nonces (self s))[p := v + 1]"
    by auto
  show "length (nonces (self s')) = length (nonces (self s))" by (rule len)
  show "\<forall>p < length (nonces (self s)). nonces (self s) ! p \<le> nonces (self s') ! p"
    using p upd by (auto simp: nth_list_update)
qed

lemma call_seq_lower:
  "call_seq env idxs s = (Return vs, s') \<Longrightarrow>
     length vs = length idxs \<and>
     (\<forall>k < length idxs. \<forall>a. py_index (nonces (self s)) (idxs ! k) = Inr a \<longrightarrow> a \<le> vs ! k)"
proof (induction idxs arbitrary: s vs s')
  case Nil
  then show ?case by (simp add: return_def)
next
  case (Cons idx rest)
  from Cons.prems obtain v s1 vs1 where
    first: "get_nonce_lock env idx s = (Return v, s1)"
    and rest: "call_seq env rest s1 = (Return vs1, s')"
    and vs: "vs = v # vs1"
    by (auto simp: return_def dest!: bind_ReturnD)
  note ih = Cons.IH [OF rest]
  note mono = get_nonce_lock_mono [OF first]
  have rd: "py_index (nonces (self s)) idx = Inr v"
    using get_nonce_lock_Return [OF first] by simp
  have "a \<le> vs ! k" if k: "k < length (idx # rest)"
    and a: "py_index (nonces (self s)) ((idx # rest) ! k) = Inr a" for k a
  proof (cases k)
    case 0
    with a rd vs show ?thesis by simp
  next
    case (Suc k')
    with a have a': "py_index (nonces (self s)) (rest ! k') = Inr a" by simp
    from py_index_same_length [OF a' mono(1)]
    obtain b where b: "py_index (nonces (self s1)) (rest ! k') = Inr b" ..
    have "a \<le> b" by (rule py_index_mono [OF a' b mono(1) mono(2)])
    moreover have "b \<le> vs1 ! k'" using ih b k Suc by simp
    ultimately show ?thesis using vs Suc by simp
  qed
  with ih vs show ?case by simp
qed

lemma call_seq_increasing:
  "call_seq env idxs s = (Return vs, s') \<Longrightarrow> i < j \<Longrightarrow> j < length idxs \<Longrightarrow>
     idxs ! i = idxs ! j \<Longrightarrow> vs ! i < vs ! j"
proof (induction idxs arbitrary: s vs s' i j)
  case Nil
  then show ?case by simp
next
  case (Cons idx rest)
  from Cons.prems(1) obtain v s1 vs1 where
    first: "get_nonce_lock env idx s = (Return v, s1)"
    and rest: "call_seq env rest s1 = (Return vs1, s')"
    and vs: "vs = v # vs1"
    by (auto simp: return_def dest!: bind_ReturnD)
  from Cons.prems(2) obtain j' where j: "j = Suc j'" by (cases j) auto
  show ?case
  proof (cases i)
    case 0
    from get_nonce_lock_Return [OF first]
    have rd: "py_index (nonces (self s)) idx = Inr v"
      and wr: "py_setitem (nonces (self s)) idx (v + 1) = Inr (nonces (self s1))"
      by simp_all
    from py_setitem_Inr [OF wr rd]
    have "py_index (nonces (self s1)) idx = Inr (v + 1)" by simp
    moreover have "rest ! j' = idx" using Cons.prems(4) 0 j by simp
    ultimately have "v + 1 \<le> vs1 ! j'"
      using call_seq_lower [OF rest] Cons.prems(3) j by auto
    with 0 j vs show ?thesis by simp
  next
    case (Suc i')
    with Cons.IH [OF rest, of i' j'] Cons.prems j vs show ?thesis by simp
  qed
qed

lemma get_nonce_lock_total:
  assumes "\<not> locked (self s)" "py_index (nonces (self s)) idx = Inr v"
  shows "\<exists>s'. get_nonce_lock env idx s = (Return v, s')"
  using assms
  by (auto simp: get_nonce_lock_def bind_def lock_acquire_def lib_sleep_def self_nonces_def
      set_self_nonces_def lock_release_def return_def raise_def of_sum_def py_setitem_def
      py_index_def split: if_splits option.splits)


lemmas prog_defs = bind_def return_def raise_def of_sum_def if_then_def lib_def
  self_accounts_def self_private_keys_def self_nonces_def set_self_nonces_def
  lock_acquire_def lock_release_def assign_def lib_sleep_def lib_print_def
  lib_get_transaction_count_def

lemma py_range_3: "py_range 3 = [0, 1, 2]"
  by (simp add: py_range_def upt_rec)

lemma py_index_nat:
  "0 \<le> i \<Longrightarrow> py_index xs i = (if i < int (length xs) then Inr (xs ! nat i) else Inl IndexError)"
  by (simp add: py_index_def py_pos_def)

lemma py_setitem_nat:
  "0 \<le> i \<Longrightarrow> py_setitem xs i v = (if i < int (length xs) then Inr (xs[nat i := v]) else Inl IndexError)"
  by (simp add: py_setitem_def py_pos_def)

lemma update_nonces_Return:
  "update_nonces env s = (Return (), s') \<Longrightarrow>
     \<not> locked (self s) \<and> 3 \<le> length (accounts (self s)) \<and> 3 \<le> length (nonces (self s)) \<and>
     (\<exists>n0 n1 n2.
        self s' = (self s)\<lparr>nonces := (nonces (self s))[0 := n0, 1 := n1, 2 := n2]\<rparr> \<and>
        trace s' = trace s @ [EvTxCount (accounts (self s) ! 0) (Inr n0),
                              EvTxCount (accounts (self s) ! 1) (Inr n1),
                              EvTxCount (accounts (self s) ! 2) (Inr n2)])"
  by (auto simp: update_nonces_def py_range_3 prog_defs py_index_nat py_setitem_nat
      split: if_splits sum.splits prod.splits outcome.splits)


lemma length_py_setitem: "py_setitem xs i v = Inr ys \<Longrightarrow> length ys = length xs"
  by (auto simp: py_setitem_def split: option.splits)

lemma get_nonce_lock_frame:
  "same_fields (self (snd (get_nonce_lock env idx s))) (self s) \<and>
   length (nonces (self (snd (get_nonce_lock env idx s)))) = length (nonces (self s))"
  by (auto simp: get_nonce_lock_def prog_defs same_fields_def
      split: if_splits sum.splits prod.splits outcome.splits dest: length_py_setitem)

lemma update_nonces_loop_frame:
  "same_fields (self (snd (update_nonces_loop env idxs s))) (self s) \<and>
   locked (self (snd (update_nonces_loop env idxs s))) = locked (self s) \<and>
   length (nonces (self (snd (update_nonces_loop env idxs s)))) = length (nonces (self s))"
proof (induction idxs arbitrary: s)
  case Nil
  show ?case by (simp add: return_def same_fields_def)
next
  case (Cons i rest)
  show ?case
  proof (cases "self_accounts i s")
    case (Pair r1 s1)
    then have s1: "s1 = s" by (auto simp: prog_defs split: sum.splits)
    show ?thesis
    proof (cases r1)
      case (Return a)
      obtain r2 s2 where c: "lib_get_transaction_count env a s = (r2, s2)" by force
      then have s2: "self s2 = self s" by (auto simp: prog_defs split: prod.splits)
      show ?thesis
      proof (cases r2)
        case (Return n)
        obtain r3 s3 where w: "set_self_nonces i n s2 = (r3, s3)" by force
        then have s3: "same_fields (self s3) (self s2)" "locked (self s3) = locked (self s2)"
          "length (nonces (self s3)) = length (nonces (self s2))"
          by (auto simp: prog_defs same_fields_def split: sum.splits dest: length_py_setitem)
        show ?thesis
        proof (cases r3)
          case (Return u)
          with Pair s1 \<open>r1 = Return a\<close> c \<open>r2 = Return n\<close> w
          have "update_nonces_loop env (i # rest) s = update_nonces_loop env rest s3"
            by (simp add: bind_def)
          with Cons.IH [of s3] s3 s2 show ?thesis by (simp add: same_fields_def)
        qed (use Pair s1 \<open>r1 = Return a\<close> c \<open>r2 = Return n\<close> w s3 s2 in
              \<open>simp_all add: bind_def same_fields_def\<close>)
      qed (use Pair s1 \<open>r1 = Return a\<close> c s2 in \<open>simp_all add: bind_def same_fields_def\<close>)
    qed (use Pair s1 in \<open>simp_all add: bind_def same_fields_def\<close>)
  qed
qed

lemma update_nonces_frame:
  "same_fields (self (snd (update_nonces env s))) (self s) \<and>
   length (nonces (self (snd (update_nonces env s)))) = length (nonces (self s))"
proof (cases "locked (self s)")
  case True
  then show ?thesis by (simp add: update_nonces_def bind_def lock_acquire_def same_fields_def)
next
  case False
  define s1 where "s1 = s\<lparr>self := (self s)\<lparr>locked := True\<rparr>\<rparr>"
  obtain r2 s2 where l: "update_nonces_loop env (py_range 3) s1 = (r2, s2)" by force
  from update_nonces_loop_frame [of env "py_range 3" s1] l
  have s2: "same_fields (self s2) (self s)" "length (nonces (self s2)) = length (nonces (self s))"
    by (simp_all add: s1_def same_fields_def)
  have "update_nonces env s =
      (case r2 of Return x \<Rightarrow> lock_release s2 | Raise e \<Rightarrow> (Raise e, s2) | Blocked \<Rightarrow> (Blocked, s2))"
    using False l by (simp add: update_nonces_def bind_def lock_acquire_def s1_def)
  with s2 show ?thesis
    by (cases r2) (auto simp: lock_release_def same_fields_def)
qed

lemma init_Return:
  "init env blockchain \<lparr>self = blank, world = w, trace = []\<rparr> = (Return (), s') \<Longrightarrow>
     length (nonces (self s')) = 3 \<and> 3 \<le> length (accounts (self s')) \<and>
     trace s' = [EvTxCount (accounts (self s') ! 0) (Inr (nonces (self s') ! 0)),
                 EvTxCount (accounts (self s') ! 1) (Inr (nonces (self s') ! 1)),
                 EvTxCount (accounts (self s') ! 2) (Inr (nonces (self s') ! 2))]"
  by (auto simp: init_def py_range_3 prog_defs py_index_nat blank_def
      split: if_splits sum.splits prod.splits outcome.splits)


text \<open>
  Claim C1. For every transaction and key: when signing, sending or waiting for the receipt
  raises \<open>ValueError\<close> or \<open>TimeExhausted\<close>, \<open>sign_send_transaction\<close> returns 0 and raises
  nothing; when the three calls return, it returns the \<open>status\<close> entry of the receipt.
\<close>

theorem sign_send_transaction_status:
  "(\<forall>e w1. sign_transaction env tx pk (world s) = (Inl e, w1) \<and> (e = ValueError \<or> e = TimeExhausted)
      \<longrightarrow> fst (sign_send_transaction env tx pk s) = Return (PInt 0)) \<and>
   (\<forall>sg w1 e w2. sign_transaction env tx pk (world s) = (Inr sg, w1) \<and>
      send_raw_transaction env (rawTransaction sg) w1 = (Inl e, w2) \<and> (e = ValueError \<or> e = TimeExhausted)
      \<longrightarrow> fst (sign_send_transaction env tx pk s) = Return (PInt 0)) \<and>
   (\<forall>sg w1 h w2 e w3. sign_transaction env tx pk (world s) = (Inr sg, w1) \<and>
      send_raw_transaction env (rawTransaction sg) w1 = (Inr h, w2) \<and>
      wait_for_transaction_receipt env h w2 = (Inl e, w3) \<and> (e = ValueError \<or> e = TimeExhausted)
      \<longrightarrow> fst (sign_send_transaction env tx pk s) = Return (PInt 0)) \<and>
   (\<forall>sg w1 h w2 receipt w3 st. sign_transaction env tx pk (world s) = (Inr sg, w1) \<and>
      send_raw_transaction env (rawTransaction sg) w1 = (Inr h, w2) \<and>
      wait_for_transaction_receipt env h w2 = (Inr receipt, w3) \<and>
      map_of receipt ''status'' = Some st
      \<longrightarrow> fst (sign_send_transaction env tx pk s) = Return st)"
  by (auto simp: sign_send_transaction_def try_except_def caught_def py_getitem_def prog_defs
      lib_sign_transaction_def lib_send_raw_transaction_def lib_wait_for_transaction_receipt_def)

theorem sign_send_transaction_status_witness:
  "fst (sign_send_transaction demo_env [(''nonce'', PInt 4)] ''k1'' demo_state) = Return (PInt 0) \<and>
   fst (sign_send_transaction demo_env [(''nonce'', PInt 4)] ''k0'' demo_state) = Return (PInt 1)"
proof -
  have a: "sign_transaction demo_env [(''nonce'', PInt 4)] ''k1'' (world demo_state) = (Inl ValueError, 4)"
    by (simp add: demo_env_def demo_state_def)
  have b: "sign_transaction demo_env [(''nonce'', PInt 4)] ''k0'' (world demo_state) = (Inr \<lparr>rawTransaction = [1]\<rparr>, 4)"
    "send_raw_transaction demo_env (rawTransaction \<lparr>rawTransaction = [1]\<rparr>) 4 = (Inr [2], 5)"
    "wait_for_transaction_receipt demo_env [2] 5 = (Inr [(''status'', PInt 1)], 5)"
    "map_of [(''status'', PInt 1)] ''status'' = Some (PInt 1)"
    by (simp_all add: demo_env_def demo_state_def)
  from sign_send_transaction_status [of demo_env "[(''nonce'', PInt 4)]" "''k1''" demo_state]
  have "fst (sign_send_transaction demo_env [(''nonce'', PInt 4)] ''k1'' demo_state) = Return (PInt 0)"
    using a by blast
  moreover
  from sign_send_transaction_status [of demo_env "[(''nonce'', PInt 4)]" "''k0''" demo_state]
  have "fst (sign_send_transaction demo_env [(''nonce'', PInt 4)] ''k0'' demo_state) = Return (PInt 1)"
    using b by blast
  ultimately show ?thesis ..
qed

lemma sign_send_transaction_propagates:
  "sign_transaction env tx pk (world s) = (Inl e, w1) \<Longrightarrow> e \<noteq> ValueError \<Longrightarrow> e \<noteq> TimeExhausted \<Longrightarrow>
     fst (sign_send_transaction env tx pk s) = Raise e"
  by (auto simp: sign_send_transaction_def try_except_def caught_def py_getitem_def prog_defs
      lib_sign_transaction_def)


lemmas demo_defs = demo_env_def demo_self_def demo_state_def

lemma demo_get_nonce_lock:
  "get_nonce_lock demo_env 1 demo_state =
     (Return 7, \<lparr>self = demo_self\<lparr>nonces := [5, 8, 9]\<rparr>, world = 4, trace = [EvSleep delay]\<rparr>)"
  by (simp add: get_nonce_lock_def prog_defs demo_defs py_index_nat py_setitem_nat)

lemma demo_call_seq:
  "fst (call_seq demo_env [1, 0, 1] demo_state) = Return [7, 5, 8]"
  by (simp add: get_nonce_lock_def prog_defs demo_defs py_index_nat py_setitem_nat)

text \<open>
  Claim C3. For an index among 0, 1 and 2, a completed call of \<open>get_nonce_lock\<close> returns the
  nonce stored for that account when the call started and leaves the stored nonce one
  higher; so in any sequence of completed calls, two calls for the same index get
  different values. On an object with three nonces and a free lock the call does complete.
\<close>

theorem get_nonce_lock_fresh:
  "(\<forall>v s'. idx \<in> {0, 1, 2} \<and> get_nonce_lock env idx s = (Return v, s') \<longrightarrow>
      nat idx < length (nonces (self s)) \<and> v = nonces (self s) ! nat idx \<and>
      nonces (self s') ! nat idx = v + 1) \<and>
   (\<forall>idxs vs s' i j. call_seq env idxs s = (Return vs, s') \<and> i < j \<and> j < length idxs \<and>
      idxs ! i = idxs ! j \<longrightarrow> vs ! i \<noteq> vs ! j) \<and>
   (idx \<in> {0, 1, 2} \<and> length (nonces (self s)) = 3 \<and> \<not> locked (self s) \<longrightarrow>
      (\<exists>v s'. get_nonce_lock env idx s = (Return v, s')))"
proof (intro conjI allI impI)
  fix v s'
  assume a: "idx \<in> {0, 1, 2} \<and> get_nonce_lock env idx s = (Return v, s')"
  then have idx: "0 \<le> idx" by auto
  from a get_nonce_lock_Return [of env idx s v s']
  have rd: "py_index (nonces (self s)) idx = Inr v"
    and wr: "py_setitem (nonces (self s)) idx (v + 1) = Inr (nonces (self s'))"
    by simp_all
  from rd idx show "nat idx < length (nonces (self s))"
    by (auto simp: py_index_nat split: if_splits)
  from rd idx show "v = nonces (self s) ! nat idx"
    by (auto simp: py_index_nat split: if_splits)
  from py_setitem_Inr [OF wr rd] have "py_index (nonces (self s')) idx = Inr (v + 1)"
    by simp
  with idx show "nonces (self s') ! nat idx = v + 1"
    by (auto simp: py_index_nat split: if_splits)
next
  fix idxs vs s' i j
  assume "call_seq env idxs s = (Return vs, s') \<and> i < j \<and> j < length idxs \<and> idxs ! i = idxs ! j"
  then have "vs ! i < vs ! j" using call_seq_increasing [of env idxs s vs s' i j] by simp
  then show "vs ! i \<noteq> vs ! j" by simp
next
  assume a: "idx \<in> {0, 1, 2} \<and> length (nonces (self s)) = 3 \<and> \<not> locked (self s)"
  then have "py_index (nonces (self s)) idx = Inr (nonces (self s) ! nat idx)"
    by (auto simp: py_index_nat)
  with a get_nonce_lock_total [of s idx "nonces (self s) ! nat idx" env]
  show "\<exists>v s'. get_nonce_lock env idx s = (Return v, s')" by blast
qed

theorem get_nonce_lock_fresh_witness:
  "(1::int) \<in> {0, 1, 2} \<and> fst (get_nonce_lock demo_env 1 demo_state) = Return 7 \<and>
   nonces (self demo_state) ! 1 = 7 \<and>
   nonces (self (snd (get_nonce_lock demo_env 1 demo_state))) ! 1 = 8 \<and>
   fst (call_seq demo_env [1, 0, 1] demo_state) = Return [7, 5, 8] \<and>
   [7, 5, 8 :: int] ! 0 \<noteq> [7, 5, 8] ! 2"
proof -
  have run: "get_nonce_lock demo_env 1 demo_state = (Return 7, snd (get_nonce_lock demo_env 1 demo_state))"
    by (simp add: demo_get_nonce_lock)
  have seq: "call_seq demo_env [1, 0, 1] demo_state = (Return [7, 5, 8], snd (call_seq demo_env [1, 0, 1] demo_state))"
    using demo_call_seq by (metis prod.collapse)
  note fresh = get_nonce_lock_fresh [of 1 demo_env demo_state]
  from fresh run have "nonces (self (snd (get_nonce_lock demo_env 1 demo_state))) ! nat 1 = 7 + 1"
    by blast
  moreover from fresh seq have "[7, 5, 8 :: int] ! 0 \<noteq> [7, 5, 8] ! 2"
    by (metis length_Cons list.size(3) nth_Cons_0 nth_Cons_Suc numeral_2_eq_2 zero_less_Suc lessI)
  moreover have "nonces (self demo_state) ! 1 = 7"
    by (simp add: demo_defs)
  ultimately show ?thesis
    using demo_call_seq by (simp add: demo_get_nonce_lock)
qed

text \<open>
  A caller that is alone on its loop: with and without line 48 the call has the same outcome
  and leaves the same object, and the states after differ only by the world having slept
  and the history showing it.
\<close>

lemma get_nonce_lock_delay_alone:
  "fst (get_nonce_lock env idx s) = fst (get_nonce_lock_no_delay idx s) \<and>
   self (snd (get_nonce_lock env idx s)) = self (snd (get_nonce_lock_no_delay idx s)) \<and>
   snd (get_nonce_lock env idx s) =
     (if locked (self s) then snd (get_nonce_lock_no_delay idx s)
      else (snd (get_nonce_lock_no_delay idx s))
             \<lparr>world := sleep env delay (world s), trace := trace s @ [EvSleep delay]\<rparr>)"
  by (auto simp: get_nonce_lock_def get_nonce_lock_no_delay_def prog_defs
      split: if_splits sum.splits prod.splits outcome.splits)

text \<open>
  The loop with a single task is the call as defined above: the two parts of the method,
  run by the loop around the sleep, make up \<open>get_nonce_lock\<close>.
\<close>

lemma gather_alone:
  "gather env [Entering idx] s =
     (case get_nonce_lock env idx s of
        (Return v, s') \<Rightarrow> (Return [(0, Inr v)], s')
      | (Raise e, s') \<Rightarrow> (Return [(0, Inl e)], s')
      | (Blocked, s') \<Rightarrow> (Blocked, s'))"
  by (auto simp: gather_def get_nonce_lock_def get_nonce_lock_rest_def prog_defs
      split: prod.splits outcome.splits sum.splits if_splits)

lemma gather_alone_no_delay:
  "gather env [EnteringNoDelay idx] s =
     (case get_nonce_lock_no_delay idx s of
        (Return v, s') \<Rightarrow> (Return [(0, Inr v)], s')
      | (Raise e, s') \<Rightarrow> (Return [(0, Inl e)], s')
      | (Blocked, s') \<Rightarrow> (Blocked, s'))"
  by (auto simp: gather_def split: prod.splits outcome.splits)

lemma gather_two_no_delay:
  assumes "\<not> locked (self s)" "length (nonces (self s)) = 3" "i \<in> {0, 1, 2}" "j \<in> {0, 1, 2}"
  shows "\<exists>vi vj s'. gather env [EnteringNoDelay i, EnteringNoDelay j] s
      = (Return [(0, Inr vi), (1, Inr vj)], s')"
  using assms
  by (auto simp: gather_def get_nonce_lock_no_delay_def prog_defs py_index_nat py_setitem_nat)

lemma gather_two_blocked:
  "fst (gather env (Entering i # Entering j # tasks) s) = Blocked"
  by (simp add: gather_def lock_acquire_def)

text \<open>
  Claim C6. The delay is not without effect. Line 48 is an \<^verbatim>\<open>await\<close> inside the section
  that holds the \<open>threading.Lock\<close>: of two calls of \<open>get_nonce_lock\<close> gathered on one loop,
  the first sleeps with the lock taken and the second is stuck in \<^verbatim>\<open>lock.acquire()\<close>,
  so the calls never return. The same two calls of the method without line 48 return 5
  and 7 and leave the nonces 6, 8 and 9.
\<close>

theorem get_nonce_lock_delay_deadlock:
  "fst (gather demo_env [Entering 0, Entering 1] demo_state) = Blocked \<and>
   fst (gather demo_env [EnteringNoDelay 0, EnteringNoDelay 1] demo_state)
     = Return [(0, Inr 5), (1, Inr 7)] \<and>
   nonces (self (snd (gather demo_env [EnteringNoDelay 0, EnteringNoDelay 1] demo_state))) = [6, 8, 9]"
  by (simp add: gather_def get_nonce_lock_no_delay_def prog_defs demo_defs py_index_nat
      py_setitem_nat)

lemma demo_init:
  "init demo_env ''polygon'' \<lparr>self = blank, world = 4, trace = []\<rparr> =
     (Return (),
      \<lparr>self = demo_self\<lparr>w3 := HTTPProvider ''http://node:8545'', nonces := [4, 4, 4]\<rparr>,
       world = 4,
       trace = [EvTxCount ''0xA0'' (Inr 4), EvTxCount ''0xA1'' (Inr 4), EvTxCount ''0xA2'' (Inr 4)]\<rparr>)"
  by (simp add: init_def py_range_3 prog_defs py_index_nat blank_def demo_defs)

lemma demo_update_nonces:
  "update_nonces demo_env demo_state =
     (Return (),
      \<lparr>self = demo_self\<lparr>nonces := [4, 4, 4]\<rparr>, world = 4,
       trace = [EvTxCount ''0xA0'' (Inr 4), EvTxCount ''0xA1'' (Inr 4), EvTxCount ''0xA2'' (Inr 4)]\<rparr>)"
  by (simp add: update_nonces_def py_range_3 prog_defs py_index_nat py_setitem_nat demo_defs)

text \<open>
  Claim C7. A constructor that returns leaves exactly three nonces, the transaction counts
  the node gave for the first three accounts in order; \<open>get_nonce_lock\<close> and
  \<open>update_nonces\<close> keep the number of nonces, whatever their outcome.
\<close>

theorem nonces_length_three:
  "(\<forall>w s'. init env blockchain \<lparr>self = blank, world = w, trace = []\<rparr> = (Return (), s') \<longrightarrow>
      length (nonces (self s')) = 3 \<and> 3 \<le> length (accounts (self s')) \<and>
      trace s' = [EvTxCount (accounts (self s') ! 0) (Inr (nonces (self s') ! 0)),
                  EvTxCount (accounts (self s') ! 1) (Inr (nonces (self s') ! 1)),
                  EvTxCount (accounts (self s') ! 2) (Inr (nonces (self s') ! 2))]) \<and>
   length (nonces (self (snd (get_nonce_lock env idx s)))) = length (nonces (self s)) \<and>
   length (nonces (self (snd (update_nonces env s)))) = length (nonces (self s))"
  using init_Return [of env blockchain] get_nonce_lock_frame [of env idx s]
    update_nonces_frame [of env s]
  by blast

theorem nonces_length_three_witness:
  "fst (init demo_env ''polygon'' \<lparr>self = blank, world = 4, trace = []\<rparr>) = Return () \<and>
   length (nonces (self (snd (init demo_env ''polygon'' \<lparr>self = blank, world = 4, trace = []\<rparr>)))) = 3 \<and>
   length (nonces (self demo_state)) = 3 \<and>
   length (nonces (self (snd (get_nonce_lock demo_env 1 demo_state)))) = 3 \<and>
   length (nonces (self (snd (update_nonces demo_env demo_state)))) = 3"
proof -
  have len: "length (nonces (self demo_state)) = 3"
    by (simp add: demo_defs)
  have run: "init demo_env ''polygon'' \<lparr>self = blank, world = 4, trace = []\<rparr> =
      (Return (), snd (init demo_env ''polygon'' \<lparr>self = blank, world = 4, trace = []\<rparr>))"
    by (simp add: demo_init)
  note three = nonces_length_three [of demo_env "''polygon''" 1 demo_state]
  from three run
  have "length (nonces (self (snd (init demo_env ''polygon'' \<lparr>self = blank, world = 4, trace = []\<rparr>)))) = 3"
    by blast
  moreover have "fst (init demo_env ''polygon'' \<lparr>self = blank, world = 4, trace = []\<rparr>) = Return ()"
    by (simp add: demo_init)
  ultimately show ?thesis using three len by simp
qed

text \<open>
  Claim C10. A completed \<open>get_nonce_lock\<close> changes the nonce at its index, adding one, and
  nothing else of the object; a completed \<open>update_nonces\<close> overwrites the first three
  nonces with the transaction counts the node gave for the three accounts and changes
  nothing else of the object. Whatever the outcome, neither touches an attribute other
  than the nonces and the lock.
\<close>

theorem nonce_manager_frame:
  "(\<forall>v s'. get_nonce_lock env idx s = (Return v, s') \<longrightarrow>
      (\<exists>p < length (nonces (self s)).
         py_pos (length (nonces (self s))) idx = Some p \<and> (0 \<le> idx \<longrightarrow> p = nat idx) \<and>
         self s' = (self s)\<lparr>nonces := (nonces (self s))[p := nonces (self s) ! p + 1]\<rparr>)) \<and>
   (\<forall>s'. update_nonces env s = (Return (), s') \<longrightarrow>
      (\<exists>n0 n1 n2.
         self s' = (self s)\<lparr>nonces := (nonces (self s))[0 := n0, 1 := n1, 2 := n2]\<rparr> \<and>
         trace s' = trace s @ [EvTxCount (accounts (self s) ! 0) (Inr n0),
                               EvTxCount (accounts (self s) ! 1) (Inr n1),
                               EvTxCount (accounts (self s) ! 2) (Inr n2)])) \<and>
   same_fields (self (snd (get_nonce_lock env idx s))) (self s) \<and>
   same_fields (self (snd (update_nonces env s))) (self s)"
proof (intro conjI allI impI)
  fix v s'
  assume run: "get_nonce_lock env idx s = (Return v, s')"
  from get_nonce_lock_Return [OF run]
  have rd: "py_index (nonces (self s)) idx = Inr v"
    and wr: "py_setitem (nonces (self s)) idx (v + 1) = Inr (nonces (self s'))"
    and fr: "self s' = (self s)\<lparr>nonces := nonces (self s')\<rparr>"
    by simp_all
  from py_setitem_Inr [OF wr rd] obtain p where
    p: "p < length (nonces (self s))" "py_pos (length (nonces (self s))) idx = Some p"
      "nonces (self s) ! p = v" "nonces (self s') = (nonces (self s))[p := v + 1]"
    by auto
  have "0 \<le> idx \<longrightarrow> p = nat idx"
    using p(2) by (auto simp: py_pos_def split: if_splits)
  moreover have "self s' = (self s)\<lparr>nonces := (nonces (self s))[p := nonces (self s) ! p + 1]\<rparr>"
    using fr p(3,4) by simp
  ultimately show "\<exists>p < length (nonces (self s)).
         py_pos (length (nonces (self s))) idx = Some p \<and> (0 \<le> idx \<longrightarrow> p = nat idx) \<and>
         self s' = (self s)\<lparr>nonces := (nonces (self s))[p := nonces (self s) ! p + 1]\<rparr>"
    using p(1,2) by blast
next
  fix s'
  assume "update_nonces env s = (Return (), s')"
  from update_nonces_Return [OF this]
  show "\<exists>n0 n1 n2.
         self s' = (self s)\<lparr>nonces := (nonces (self s))[0 := n0, 1 := n1, 2 := n2]\<rparr> \<and>
         trace s' = trace s @ [EvTxCount (accounts (self s) ! 0) (Inr n0),
                               EvTxCount (accounts (self s) ! 1) (Inr n1),
                               EvTxCount (accounts (self s) ! 2) (Inr n2)]"
    by blast
next
  show "same_fields (self (snd (get_nonce_lock env idx s))) (self s)"
    using get_nonce_lock_frame [of env idx s] by simp
next
  show "same_fields (self (snd (update_nonces env s))) (self s)"
    using update_nonces_frame [of env s] by simp
qed

theorem nonce_manager_frame_witness:
  "fst (get_nonce_lock demo_env 1 demo_state) = Return 7 \<and>
   self (snd (get_nonce_lock demo_env 1 demo_state)) = demo_self\<lparr>nonces := [5, 8, 9]\<rparr> \<and>
   fst (update_nonces demo_env demo_state) = Return () \<and>
   (\<exists>n0 n1 n2. self (snd (update_nonces demo_env demo_state)) = demo_self\<lparr>nonces := [n0, n1, n2]\<rparr>)"
proof -
  have r1: "get_nonce_lock demo_env 1 demo_state = (Return 7, snd (get_nonce_lock demo_env 1 demo_state))"
    by (simp add: demo_get_nonce_lock)
  have r2: "update_nonces demo_env demo_state = (Return (), snd (update_nonces demo_env demo_state))"
    by (simp add: demo_update_nonces)
  note frame = nonce_manager_frame [of demo_env 1 demo_state]
  from frame r1 obtain p where
    "(0 \<le> (1::int) \<longrightarrow> p = nat 1)"
    "self (snd (get_nonce_lock demo_env 1 demo_state)) =
       (self demo_state)\<lparr>nonces := (nonces (self demo_state))[p := nonces (self demo_state) ! p + 1]\<rparr>"
    by blast
  then have a: "self (snd (get_nonce_lock demo_env 1 demo_state)) = demo_self\<lparr>nonces := [5, 8, 9]\<rparr>"
    by (simp add: demo_defs)
  from frame r2 obtain n0 n1 n2 where
    "self (snd (update_nonces demo_env demo_state)) =
       (self demo_state)\<lparr>nonces := (nonces (self demo_state))[0 := n0, 1 := n1, 2 := n2]\<rparr>"
    by blast
  then have b: "self (snd (update_nonces demo_env demo_state)) = demo_self\<lparr>nonces := [n0, n1, n2]\<rparr>"
    by (simp add: demo_defs)
  from a b show ?thesis
    by (auto simp: demo_get_nonce_lock demo_update_nonces)
qed

subsection \<open>The scenarios as sequences of steps\<close>

lemma check_statuses_all: "check_statuses statuses = list_all truthy statuses"
proof -
  have "fold (\<lambda>status acc. acc \<and> truthy status) xs b = (b \<and> list_all truthy xs)" for xs b
    by (induction xs arbitrary: b) auto
  then show ?thesis by (simp add: check_statuses_def)
qed

lemma get_nonce_eq: "get_nonce env idx = bind (self_accounts idx) (lib_get_transaction_count env)"
  by (rule ext) (simp add: get_nonce_def bind_def return_def split: prod.splits outcome.splits)

lemma sequence_upload_steps:
  "sequence_upload env cloud_address filepath hash_digest =
     bind (lib_get_contract env cloud_address COMPILED_CLOUD_SLA_PATH) (\<lambda>c.
     bind (of_sum (solidityKeccak env [''bytes32''] [hash_digest])) (\<lambda>challenge.
     bind (step env 1 c (UploadRequest filepath challenge) []) (\<lambda>st1.
     bind (step env 0 c (UploadRequestAck filepath) []) (\<lambda>st2.
     bind (step env 0 c (UploadTransferAck filepath hash_digest) []) (\<lambda>st3.
     return (truthy st1 \<and> truthy st2 \<and> truthy st3))))))"
  by (simp add: sequence_upload_def step_def bind_assoc check_statuses_all Let_def)

lemma sequence_read_steps:
  "sequence_read env cloud_address filepath url =
     bind (lib_get_contract env cloud_address COMPILED_CLOUD_SLA_PATH) (\<lambda>c.
     bind (step env 1 c (ReadRequest filepath) []) (\<lambda>st1.
     bind (step env 0 c (ReadRequestAck filepath url) []) (\<lambda>st2.
     return (truthy st1 \<and> truthy st2))))"
  by (simp add: sequence_read_def step_def bind_assoc check_statuses_all Let_def)

lemma sequence_file_steps:
  "sequence_file env cloud_address filepath url hash_digest =
     bind (lib_get_contract env cloud_address COMPILED_CLOUD_SLA_PATH) (\<lambda>c.
     bind (get_self oracle_address) (\<lambda>oa.
     bind (lib_get_contract env oa COMPILED_ORACLE_PATH) (\<lambda>orc.
     bind (step env 1 c (FileHashRequest filepath) []) (\<lambda>st1.
     bind (step env 2 orc (DigestStore url hash_digest) []) (\<lambda>st2.
     bind (step env 1 c (FileCheck filepath) []) (\<lambda>st3.
     return (truthy st1 \<and> truthy st2 \<and> truthy st3)))))))"
  by (simp add: sequence_file_def step_def bind_assoc check_statuses_all Let_def)

lemma delete_file_steps:
  "delete_file env cloud_address =
     bind (lib_get_contract env cloud_address COMPILED_CLOUD_SLA_PATH) (\<lambda>c.
     bind (step env 1 c (DeleteRequest ''test.pdf'') []) (\<lambda>st1.
     bind (step env 0 c (Delete ''test.pdf'') []) (\<lambda>st2.
     bind (if_then ((truthy st1 \<and> truthy st2) \<and> DEBUG env) (lib_print env (Line ''Delete: OK''))) (\<lambda>_.
     return (truthy st1 \<and> truthy st2)))))"
  by (simp add: delete_file_def step_def bind_assoc check_statuses_all Let_def)

lemma read_deny_lost_file_check_steps:
  "read_deny_lost_file_check env cloud_address =
     bind (lib_get_contract env cloud_address COMPILED_CLOUD_SLA_PATH) (\<lambda>c.
     bind (step env 1 c (ReadRequest ''test2.pdf'') []) (\<lambda>st1.
     bind (step env 0 c (ReadRequestDeny ''test2.pdf'') []) (\<lambda>st2.
     bind (if_then ((truthy st1 \<and> truthy st2) \<and> DEBUG env)
             (lib_print env (Line ''Read Deny with lost file check: OK''))) (\<lambda>_.
     return (truthy st1 \<and> truthy st2)))))"
  by (simp add: read_deny_lost_file_check_def step_def bind_assoc check_statuses_all Let_def)

lemma cloud_sla_creation_activation_steps:
  "cloud_sla_creation_activation env =
     bind (get_self factory_address) (\<lambda>fa.
     bind (lib_get_contract env fa COMPILED_FACTORY_PATH) (\<lambda>factory.
     bind (get_self oracle_address) (\<lambda>oa.
     bind (lib_get_contract env oa COMPILED_ORACLE_PATH) (\<lambda>orc.
     bind (self_accounts 1) (\<lambda>user.
     bind (step env 0 factory
             (createChild (address orc) user (toWei_ether (1 / 1000)) (60 ^ 2) 1 1) []) (\<lambda>st1.
     bind (self_accounts 1) (\<lambda>user.
     bind (lib_call env factory (getSmartContractAddress user)) (\<lambda>tx_sm_address.
     bind (lib_get_contract env tx_sm_address COMPILED_CLOUD_SLA_PATH) (\<lambda>c.
     bind (step env 1 c Deposit [(''value'', PInt (toWei_ether (1 / 1000)))]) (\<lambda>st2.
     bind (if_then ((truthy st1 \<and> truthy st2) \<and> DEBUG env)
             (bind (lib_print env (Line ''CloudSLA creation and activation: OK'')) (\<lambda>_.
              lib_print env (AddressLine tx_sm_address)))) (\<lambda>_.
     return (tx_sm_address, truthy st1 \<and> truthy st2))))))))))))"
  by (simp add: cloud_sla_creation_activation_def step_def bind_assoc check_statuses_all Let_def)


lemma submit_done_events: "submit_done tx pk st evs \<Longrightarrow> submit_events tx pk evs"
  by (auto simp: submit_done_def submit_events_def)

lemma step_done_events: "step_done ob idx c fn extra st evs \<Longrightarrow> step_events ob idx c fn extra evs"
  by (auto simp: step_done_def step_events_def dest: submit_done_events)

lemma sign_send_transaction_events:
  "self (snd (sign_send_transaction env tx pk s)) = self s \<and>
   (\<exists>sub. trace (snd (sign_send_transaction env tx pk s)) = trace s @ sub \<and>
      submit_events tx pk sub \<and>
      (\<forall>st. fst (sign_send_transaction env tx pk s) = Return st \<longrightarrow> submit_done tx pk st sub))"
  by (auto simp: sign_send_transaction_def try_except_def submit_events_def submit_done_def
      prog_defs py_getitem_def
      lib_sign_transaction_def lib_send_raw_transaction_def lib_wait_for_transaction_receipt_def
      split: prod.splits sum.splits outcome.splits option.splits)

lemma step_run:
  "self (snd (step env idx c fn extra s)) = self s \<and>
   (\<exists>evs. trace (snd (step env idx c fn extra s)) = trace s @ evs \<and>
      step_events (self s) idx c fn extra evs \<and>
      (\<forall>st. fst (step env idx c fn extra s) = Return st \<longrightarrow> step_done (self s) idx c fn extra st evs))"
proof (cases "py_index (accounts (self s)) idx")
  case (Inl e)
  then have "step env idx c fn extra s = (Raise e, s)"
    by (simp add: step_def prog_defs)
  then show ?thesis by (simp add: step_events_def)
next
  case a: (Inr a)
  obtain r1 w1 where tc: "get_transaction_count env a (world s) = (r1, w1)" by force
  define s1 where "s1 = s\<lparr>world := w1, trace := trace s @ [EvTxCount a r1]\<rparr>"
  show ?thesis
  proof (cases r1)
    case (Inl e)
    with a tc have "step env idx c fn extra s = (Raise e, s1)"
      by (simp add: step_def get_nonce_def prog_defs s1_def)
    with a Inl show ?thesis by (simp add: step_events_def s1_def)
  next
    case n: (Inr n)
    obtain r2 w2 where bt: "buildTransaction env c fn (step_dict a n extra) w1 = (r2, w2)" by force
    define s2 where "s2 = s\<lparr>world := w2,
      trace := trace s @ [EvTxCount a (Inr n), EvBuild c fn (step_dict a n extra) r2]\<rparr>"
    show ?thesis
    proof (cases r2)
      case (Inl e)
      with a tc n bt have "step env idx c fn extra s = (Raise e, s2)"
        by (simp add: step_def get_nonce_def prog_defs lib_buildTransaction_def s2_def step_dict_def)
      with a show ?thesis by (auto simp: step_events_def s2_def)
    next
      case tx: (Inr tx)
      show ?thesis
      proof (cases "py_index (private_keys (self s)) idx")
        case (Inl e)
        with a tc n bt tx have "step env idx c fn extra s = (Raise e, s2)"
          by (simp add: step_def get_nonce_def prog_defs lib_buildTransaction_def s2_def step_dict_def)
        with a show ?thesis by (auto simp: step_events_def s2_def)
      next
        case pk: (Inr pk)
        with a tc n bt tx have run: "step env idx c fn extra s = sign_send_transaction env tx pk s2"
          by (simp add: step_def get_nonce_def prog_defs lib_buildTransaction_def s2_def step_dict_def)
        from sign_send_transaction_events [of env tx pk s2]
        obtain sub where sub: "self (snd (sign_send_transaction env tx pk s2)) = self s2"
          "trace (snd (sign_send_transaction env tx pk s2)) = trace s2 @ sub" "submit_events tx pk sub"
          "\<forall>st. fst (sign_send_transaction env tx pk s2) = Return st \<longrightarrow> submit_done tx pk st sub"
          by blast
        let ?evs = "EvTxCount a (Inr n) # EvBuild c fn (step_dict a n extra) (Inr tx) # sub"
        have ev: "step_events (self s) idx c fn extra ?evs"
          using a sub(3) by (auto simp: step_events_def)
        have fin: "\<forall>st. fst (step env idx c fn extra s) = Return st \<longrightarrow>
            step_done (self s) idx c fn extra st ?evs"
          using a pk sub(4) run by (auto simp: step_done_def)
        have "self (snd (step env idx c fn extra s)) = self s"
          using run sub(1) by (simp add: s2_def)
        moreover have "trace (snd (step env idx c fn extra s)) = trace s @ ?evs"
          using run sub(2) tx by (simp add: s2_def)
        ultimately show ?thesis using ev fin by blast
      qed
    qed
  qed
qed

lemma collect_simps [simp]:
  "collect f [] = []"
  "collect f (e # evs) = f e @ collect f evs"
  "collect f (xs @ ys) = collect f xs @ collect f ys"
  by (simp_all add: collect_def)

lemma collect_prints:
  "list_all is_print p \<Longrightarrow>
     collect build_call p = [] \<and> collect built_tx p = [] \<and> collect submitted_tx p = [] \<and>
     collect signed_raw p = [] \<and> collect sent_raw p = [] \<and> collect sent_hash p = [] \<and>
     collect waited_hash p = [] \<and> collect call_result p = [] \<and> collect status_of p = []"
proof (induction p)
  case Nil
  show ?case by simp
next
  case (Cons e p)
  then show ?case by (cases e) simp_all
qed

lemma submit_done_once:
  "submit_done tx pk st sub \<Longrightarrow>
     collect build_call sub = [] \<and> collect built_tx sub = [] \<and> collect submitted_tx sub = [tx] \<and>
     collect sent_raw sub = collect signed_raw sub \<and> collect waited_hash sub = collect sent_hash sub \<and>
     collect call_result sub = [] \<and> collect status_of sub = [st]"
  by (auto simp: submit_done_def dest!: collect_prints)

lemma step_done_once:
  "step_done ob idx c fn extra st evs \<Longrightarrow>
     once_each [fn] evs \<and> collect call_result evs = [] \<and> collect status_of evs = [st]"
  by (auto simp: step_done_def once_each_def dest!: submit_done_once)


lemma summary_append:
  "summary f1 s1 c1 e1 \<Longrightarrow> summary f2 s2 c2 e2 \<Longrightarrow> summary (f1 @ f2) (s1 @ s2) (c1 @ c2) (e1 @ e2)"
  by (simp add: summary_def once_each_def)

lemma summary_step: "step_done ob idx c fn extra st evs \<Longrightarrow> summary [fn] [st] [] evs"
  by (simp add: summary_def step_done_once)

lemma summary_prints: "list_all is_print p \<Longrightarrow> summary [] [] [] p"
  by (simp add: summary_def once_each_def collect_prints)

lemma summary_get_contract: "summary [] [] [] [EvGetContract p a art r]"
  by (simp add: summary_def once_each_def)

lemma summary_call: "summary [] [] [(fn, a)] [EvCall c fn (Inr a)]"
  by (simp add: summary_def once_each_def)

lemma bind_Return_iff:
  "bind m f s = (Return y, s'') \<longleftrightarrow> (\<exists>x s'. m s = (Return x, s') \<and> f x s' = (Return y, s''))"
  by (auto simp: bind_def split: prod.splits outcome.splits)

lemma return_Return_iff: "return x s = (Return y, s') \<longleftrightarrow> y = x \<and> s' = s"
  by (auto simp: return_def)

lemma of_sum_Return_iff: "of_sum r s = (Return x, s') \<longleftrightarrow> r = Inr x \<and> s' = s"
  by (auto simp: prog_defs split: sum.splits)

lemma get_self_Return_iff: "get_self f s = (Return x, s') \<longleftrightarrow> x = f (self s) \<and> s' = s"
  by (auto simp: get_self_def)

lemma self_accounts_Return_iff:
  "self_accounts i s = (Return a, s') \<longleftrightarrow> py_index (accounts (self s)) i = Inr a \<and> s' = s"
  by (auto simp: prog_defs split: sum.splits)

lemmas Return_iffs = bind_Return_iff return_Return_iff of_sum_Return_iff get_self_Return_iff
  self_accounts_Return_iff

lemma lib_get_contract_ReturnD:
  "lib_get_contract env a p s = (Return c, s') \<Longrightarrow>
     self s' = self s \<and> trace s' = trace s @ [EvGetContract (w3 (self s)) a p (Inr c)]"
  by (auto simp: lib_get_contract_def prog_defs split: prod.splits sum.splits)

lemma lib_call_ReturnD:
  "lib_call env c fn s = (Return a, s') \<Longrightarrow>
     self s' = self s \<and> trace s' = trace s @ [EvCall c fn (Inr a)]"
  by (auto simp: lib_call_def prog_defs split: prod.splits sum.splits)

lemma step_ReturnD:
  "step env idx c fn extra s = (Return st, s') \<Longrightarrow>
     self s' = self s \<and> (\<exists>evs. trace s' = trace s @ evs \<and> summary [fn] [st] [] evs)"
  using step_run [of env idx c fn extra s] by (auto dest: summary_step)

lemma if_then_print_ReturnD:
  "if_then b (lib_print env out) s = (Return u, s') \<Longrightarrow>
     self s' = self s \<and> (\<exists>p. trace s' = trace s @ p \<and> summary [] [] [] p)"
  by (cases b) (auto simp: prog_defs summary_def once_each_def)

lemma if_then_print2_ReturnD:
  "if_then b (bind (lib_print env out) (\<lambda>_. lib_print env out')) s = (Return u, s') \<Longrightarrow>
     self s' = self s \<and> (\<exists>p. trace s' = trace s @ p \<and> summary [] [] [] p)"
  by (cases b) (auto simp: prog_defs summary_def once_each_def)

lemma new_events_append [simp]: "trace s' = trace s @ evs \<Longrightarrow> new_events s s' = evs"
  by (simp add: new_events_def)

lemma sequence_upload_run:
  assumes "sequence_upload env cloud_address filepath hash_digest s = (Return b, s')"
  shows "self s' = self s \<and>
     (\<exists>challenge st1 st2 st3 evs.
        solidityKeccak env [''bytes32''] [hash_digest] = Inr challenge \<and>
        b = (truthy st1 \<and> truthy st2 \<and> truthy st3) \<and> trace s' = trace s @ evs \<and>
        summary [UploadRequest filepath challenge, UploadRequestAck filepath,
                 UploadTransferAck filepath hash_digest] [st1, st2, st3] [] evs)"
proof -
  from assms obtain c challenge st1 st2 st3 s1 s2 s3 where
    gc: "lib_get_contract env cloud_address COMPILED_CLOUD_SLA_PATH s = (Return c, s1)"
    and ch: "solidityKeccak env [''bytes32''] [hash_digest] = Inr challenge"
    and s1: "step env 1 c (UploadRequest filepath challenge) [] s1 = (Return st1, s2)"
    and s2: "step env 0 c (UploadRequestAck filepath) [] s2 = (Return st2, s3)"
    and s3: "step env 0 c (UploadTransferAck filepath hash_digest) [] s3 = (Return st3, s')"
    and b: "b = (truthy st1 \<and> truthy st2 \<and> truthy st3)"
    unfolding sequence_upload_steps Return_iffs by blast
  from lib_get_contract_ReturnD [OF gc] step_ReturnD [OF s1] step_ReturnD [OF s2] step_ReturnD [OF s3]
  obtain e1 e2 e3 where
    fr: "self s' = self s"
    and tr: "trace s' = trace s @ [EvGetContract (w3 (self s)) cloud_address COMPILED_CLOUD_SLA_PATH (Inr c)] @ e1 @ e2 @ e3"
    and d: "summary [UploadRequest filepath challenge] [st1] [] e1"
      "summary [UploadRequestAck filepath] [st2] [] e2"
      "summary [UploadTransferAck filepath hash_digest] [st3] [] e3"
    by auto
  from summary_append [OF summary_get_contract summary_append [OF d(1) summary_append [OF d(2) d(3)]]]
  have "summary [UploadRequest filepath challenge, UploadRequestAck filepath,
                 UploadTransferAck filepath hash_digest] [st1, st2, st3] []
      ([EvGetContract (w3 (self s)) cloud_address COMPILED_CLOUD_SLA_PATH (Inr c)] @ e1 @ e2 @ e3)"
    by simp
  with fr tr ch b show ?thesis by blast
qed

lemma sequence_read_run:
  assumes "sequence_read env cloud_address filepath url s = (Return b, s')"
  shows "self s' = self s \<and>
     (\<exists>st1 st2 evs.
        b = (truthy st1 \<and> truthy st2) \<and> trace s' = trace s @ evs \<and>
        summary [ReadRequest filepath, ReadRequestAck filepath url] [st1, st2] [] evs)"
proof -
  from assms obtain c st1 st2 s1 s2 where
    gc: "lib_get_contract env cloud_address COMPILED_CLOUD_SLA_PATH s = (Return c, s1)"
    and s1: "step env 1 c (ReadRequest filepath) [] s1 = (Return st1, s2)"
    and s2: "step env 0 c (ReadRequestAck filepath url) [] s2 = (Return st2, s')"
    and b: "b = (truthy st1 \<and> truthy st2)"
    unfolding sequence_read_steps Return_iffs by blast
  from lib_get_contract_ReturnD [OF gc] step_ReturnD [OF s1] step_ReturnD [OF s2]
  obtain e1 e2 where
    fr: "self s' = self s"
    and tr: "trace s' = trace s @ [EvGetContract (w3 (self s)) cloud_address COMPILED_CLOUD_SLA_PATH (Inr c)] @ e1 @ e2"
    and d: "summary [ReadRequest filepath] [st1] [] e1"
      "summary [ReadRequestAck filepath url] [st2] [] e2"
    by auto
  from summary_append [OF summary_get_contract summary_append [OF d(1) d(2)]]
  have "summary [ReadRequest filepath, ReadRequestAck filepath url] [st1, st2] []
      ([EvGetContract (w3 (self s)) cloud_address COMPILED_CLOUD_SLA_PATH (Inr c)] @ e1 @ e2)"
    by simp
  with fr tr b show ?thesis by blast
qed

lemma sequence_file_run:
  assumes "sequence_file env cloud_address filepath url hash_digest s = (Return b, s')"
  shows "self s' = self s \<and>
     (\<exists>st1 st2 st3 evs.
        b = (truthy st1 \<and> truthy st2 \<and> truthy st3) \<and> trace s' = trace s @ evs \<and>
        summary [FileHashRequest filepath, DigestStore url hash_digest, FileCheck filepath]
          [st1, st2, st3] [] evs)"
proof -
  from assms obtain c orc st1 st2 st3 s1 s2 s3 s4 where
    gc: "lib_get_contract env cloud_address COMPILED_CLOUD_SLA_PATH s = (Return c, s1)"
    and go: "lib_get_contract env (oracle_address (self s1)) COMPILED_ORACLE_PATH s1 = (Return orc, s2)"
    and s1: "step env 1 c (FileHashRequest filepath) [] s2 = (Return st1, s3)"
    and s2: "step env 2 orc (DigestStore url hash_digest) [] s3 = (Return st2, s4)"
    and s3: "step env 1 c (FileCheck filepath) [] s4 = (Return st3, s')"
    and b: "b = (truthy st1 \<and> truthy st2 \<and> truthy st3)"
    unfolding sequence_file_steps Return_iffs by blast
  from lib_get_contract_ReturnD [OF gc] lib_get_contract_ReturnD [OF go]
    step_ReturnD [OF s1] step_ReturnD [OF s2] step_ReturnD [OF s3]
  obtain e1 e2 e3 where
    fr: "self s' = self s"
    and tr: "trace s' = trace s @ [EvGetContract (w3 (self s)) cloud_address COMPILED_CLOUD_SLA_PATH (Inr c)]
        @ [EvGetContract (w3 (self s)) (oracle_address (self s)) COMPILED_ORACLE_PATH (Inr orc)]
        @ e1 @ e2 @ e3"
    and d: "summary [FileHashRequest filepath] [st1] [] e1"
      "summary [DigestStore url hash_digest] [st2] [] e2"
      "summary [FileCheck filepath] [st3] [] e3"
    by auto
  from summary_append [OF summary_get_contract summary_append [OF summary_get_contract
      summary_append [OF d(1) summary_append [OF d(2) d(3)]]]]
  have "summary [FileHashRequest filepath, DigestStore url hash_digest, FileCheck filepath]
      [st1, st2, st3] []
      ([EvGetContract (w3 (self s)) cloud_address COMPILED_CLOUD_SLA_PATH (Inr c)]
        @ [EvGetContract (w3 (self s)) (oracle_address (self s)) COMPILED_ORACLE_PATH (Inr orc)]
        @ e1 @ e2 @ e3)"
    by simp
  with fr tr b show ?thesis by blast
qed


lemma delete_file_run:
  assumes "delete_file env cloud_address s = (Return b, s')"
  shows "self s' = self s \<and>
     (\<exists>st1 st2 evs.
        b = (truthy st1 \<and> truthy st2) \<and> trace s' = trace s @ evs \<and>
        summary [DeleteRequest ''test.pdf'', Delete ''test.pdf''] [st1, st2] [] evs)"
proof -
  from assms obtain c st1 st2 s1 s2 s3 u where
    gc: "lib_get_contract env cloud_address COMPILED_CLOUD_SLA_PATH s = (Return c, s1)"
    and s1: "step env 1 c (DeleteRequest ''test.pdf'') [] s1 = (Return st1, s2)"
    and s2: "step env 0 c (Delete ''test.pdf'') [] s2 = (Return st2, s3)"
    and pr: "if_then ((truthy st1 \<and> truthy st2) \<and> DEBUG env) (lib_print env (Line ''Delete: OK'')) s3
        = (Return u, s')"
    and b: "b = (truthy st1 \<and> truthy st2)"
    unfolding delete_file_steps Return_iffs by blast
  from lib_get_contract_ReturnD [OF gc] step_ReturnD [OF s1] step_ReturnD [OF s2]
    if_then_print_ReturnD [OF pr]
  obtain e1 e2 p where
    fr: "self s' = self s"
    and tr: "trace s' = trace s @ [EvGetContract (w3 (self s)) cloud_address COMPILED_CLOUD_SLA_PATH (Inr c)]
        @ e1 @ e2 @ p"
    and d: "summary [DeleteRequest ''test.pdf''] [st1] [] e1"
      "summary [Delete ''test.pdf''] [st2] [] e2" "summary [] [] [] p"
    by auto
  from summary_append [OF summary_get_contract summary_append [OF d(1) summary_append [OF d(2) d(3)]]]
  have "summary [DeleteRequest ''test.pdf'', Delete ''test.pdf''] [st1, st2] []
      ([EvGetContract (w3 (self s)) cloud_address COMPILED_CLOUD_SLA_PATH (Inr c)] @ e1 @ e2 @ p)"
    by simp
  with fr tr b show ?thesis by blast
qed

lemma read_deny_lost_file_check_run:
  assumes "read_deny_lost_file_check env cloud_address s = (Return b, s')"
  shows "self s' = self s \<and>
     (\<exists>st1 st2 evs.
        b = (truthy st1 \<and> truthy st2) \<and> trace s' = trace s @ evs \<and>
        summary [ReadRequest ''test2.pdf'', ReadRequestDeny ''test2.pdf''] [st1, st2] [] evs)"
proof -
  from assms obtain c st1 st2 s1 s2 s3 u where
    gc: "lib_get_contract env cloud_address COMPILED_CLOUD_SLA_PATH s = (Return c, s1)"
    and s1: "step env 1 c (ReadRequest ''test2.pdf'') [] s1 = (Return st1, s2)"
    and s2: "step env 0 c (ReadRequestDeny ''test2.pdf'') [] s2 = (Return st2, s3)"
    and pr: "if_then ((truthy st1 \<and> truthy st2) \<and> DEBUG env)
        (lib_print env (Line ''Read Deny with lost file check: OK'')) s3 = (Return u, s')"
    and b: "b = (truthy st1 \<and> truthy st2)"
    unfolding read_deny_lost_file_check_steps Return_iffs by blast
  from lib_get_contract_ReturnD [OF gc] step_ReturnD [OF s1] step_ReturnD [OF s2]
    if_then_print_ReturnD [OF pr]
  obtain e1 e2 p where
    fr: "self s' = self s"
    and tr: "trace s' = trace s @ [EvGetContract (w3 (self s)) cloud_address COMPILED_CLOUD_SLA_PATH (Inr c)]
        @ e1 @ e2 @ p"
    and d: "summary [ReadRequest ''test2.pdf''] [st1] [] e1"
      "summary [ReadRequestDeny ''test2.pdf''] [st2] [] e2" "summary [] [] [] p"
    by auto
  from summary_append [OF summary_get_contract summary_append [OF d(1) summary_append [OF d(2) d(3)]]]
  have "summary [ReadRequest ''test2.pdf'', ReadRequestDeny ''test2.pdf''] [st1, st2] []
      ([EvGetContract (w3 (self s)) cloud_address COMPILED_CLOUD_SLA_PATH (Inr c)] @ e1 @ e2 @ p)"
    by simp
  with fr tr b show ?thesis by blast
qed

lemma another_file_upload_read_run:
  assumes "another_file_upload_read env cloud_address s = (Return b, s')"
  shows "self s' = self s \<and>
     (\<exists>challenge st1 st2 st3 st4 st5 evs.
        solidityKeccak env [''bytes32''] [upload_read_digest] = Inr challenge \<and>
        b = (truthy st1 \<and> truthy st2 \<and> truthy st3 \<and> truthy st4 \<and> truthy st5) \<and>
        trace s' = trace s @ evs \<and>
        summary [UploadRequest ''test3.pdf'' challenge, UploadRequestAck ''test3.pdf'',
                 UploadTransferAck ''test3.pdf'' upload_read_digest,
                 ReadRequest ''test3.pdf'', ReadRequestAck ''test3.pdf'' ''www.test3.com'']
          [st1, st2, st3, st4, st5] [] evs)"
proof -
  from assms obtain bu br s1 s2 u where
    up: "sequence_upload env cloud_address ''test3.pdf'' upload_read_digest s = (Return bu, s1)"
    and rd: "sequence_read env cloud_address ''test3.pdf'' ''www.test3.com'' s1 = (Return br, s2)"
    and pr: "if_then (bu \<and> br \<and> DEBUG env) (lib_print env (Line ''Another file upload + read: OK'')) s2
        = (Return u, s')"
    and b: "b = (bu \<and> br)"
    unfolding another_file_upload_read_def Let_def Return_iffs upload_read_digest_def by blast
  from sequence_upload_run [OF up] obtain challenge st1 st2 st3 e1 where
    u: "self s1 = self s" "solidityKeccak env [''bytes32''] [upload_read_digest] = Inr challenge"
      "bu = (truthy st1 \<and> truthy st2 \<and> truthy st3)" "trace s1 = trace s @ e1"
      "summary [UploadRequest ''test3.pdf'' challenge, UploadRequestAck ''test3.pdf'',
                UploadTransferAck ''test3.pdf'' upload_read_digest] [st1, st2, st3] [] e1"
    by blast
  from sequence_read_run [OF rd] obtain st4 st5 e2 where
    r: "self s2 = self s1" "br = (truthy st4 \<and> truthy st5)" "trace s2 = trace s1 @ e2"
      "summary [ReadRequest ''test3.pdf'', ReadRequestAck ''test3.pdf'' ''www.test3.com''] [st4, st5] [] e2"
    by blast
  from if_then_print_ReturnD [OF pr] obtain p where
    p: "self s' = self s2" "trace s' = trace s2 @ p" "summary [] [] [] p"
    by blast
  from summary_append [OF u(5) summary_append [OF r(4) p(3)]]
  have "summary [UploadRequest ''test3.pdf'' challenge, UploadRequestAck ''test3.pdf'',
                 UploadTransferAck ''test3.pdf'' upload_read_digest,
                 ReadRequest ''test3.pdf'', ReadRequestAck ''test3.pdf'' ''www.test3.com'']
          [st1, st2, st3, st4, st5] [] (e1 @ e2 @ p)"
    by simp
  moreover have "trace s' = trace s @ e1 @ e2 @ p"
    using u(4) r(3) p(2) by simp
  moreover have "b = (truthy st1 \<and> truthy st2 \<and> truthy st3 \<and> truthy st4 \<and> truthy st5)"
    using b u(3) r(2) by simp
  moreover have "self s' = self s"
    using u(1) r(1) p(1) by simp
  ultimately show ?thesis using u(2) by blast
qed

lemma cloud_sla_creation_activation_run:
  assumes "cloud_sla_creation_activation env s = (Return (a, b), s')"
  shows "self s' = self s \<and>
     (\<exists>(orc :: contract) user st1 st2 evs.
        py_index (accounts (self s)) 1 = Inr user \<and>
        b = (truthy st1 \<and> truthy st2) \<and> trace s' = trace s @ evs \<and>
        summary [createChild (address orc) user (toWei_ether (1 / 1000)) (60 ^ 2) 1 1, Deposit]
          [st1, st2] [(getSmartContractAddress user, a)] evs)"
proof -
  from assms obtain factory orc user user' c st1 st2 s1 s2 s3 s4 s5 s6 u where
    gf: "lib_get_contract env (factory_address (self s)) COMPILED_FACTORY_PATH s = (Return factory, s1)"
    and go: "lib_get_contract env (oracle_address (self s1)) COMPILED_ORACLE_PATH s1 = (Return orc, s2)"
    and us: "py_index (accounts (self s2)) 1 = Inr user"
    and s1: "step env 0 factory
        (createChild (address orc) user (toWei_ether (1 / 1000)) (60 ^ 2) 1 1) [] s2 = (Return st1, s3)"
    and us': "py_index (accounts (self s3)) 1 = Inr user'"
    and cl: "lib_call env factory (getSmartContractAddress user') s3 = (Return a, s4)"
    and gc: "lib_get_contract env a COMPILED_CLOUD_SLA_PATH s4 = (Return c, s5)"
    and s2: "step env 1 c Deposit [(''value'', PInt (toWei_ether (1 / 1000)))] s5 = (Return st2, s6)"
    and pr: "if_then ((truthy st1 \<and> truthy st2) \<and> DEBUG env)
        (bind (lib_print env (Line ''CloudSLA creation and activation: OK'')) (\<lambda>_.
         lib_print env (AddressLine a))) s6 = (Return u, s')"
    and b: "b = (truthy st1 \<and> truthy st2)"
    unfolding cloud_sla_creation_activation_steps Return_iffs by blast
  from lib_get_contract_ReturnD [OF gf] lib_get_contract_ReturnD [OF go] step_ReturnD [OF s1]
    lib_call_ReturnD [OF cl] lib_get_contract_ReturnD [OF gc] step_ReturnD [OF s2]
    if_then_print2_ReturnD [OF pr]
  obtain e1 e2 p where
    fr: "self s' = self s" "self s2 = self s" "self s3 = self s"
    and tr: "trace s' = trace s
        @ [EvGetContract (w3 (self s)) (factory_address (self s)) COMPILED_FACTORY_PATH (Inr factory)]
        @ [EvGetContract (w3 (self s)) (oracle_address (self s)) COMPILED_ORACLE_PATH (Inr orc)]
        @ e1 @ [EvCall factory (getSmartContractAddress user') (Inr a)]
        @ [EvGetContract (w3 (self s)) a COMPILED_CLOUD_SLA_PATH (Inr c)] @ e2 @ p"
    and d: "summary [createChild (address orc) user (toWei_ether (1 / 1000)) (60 ^ 2) 1 1] [st1] [] e1"
      "summary [Deposit] [st2] [] e2" "summary [] [] [] p"
    by auto
  from us us' fr have same: "user' = user" by simp
  let ?evs = "[EvGetContract (w3 (self s)) (factory_address (self s)) COMPILED_FACTORY_PATH (Inr factory)]
        @ [EvGetContract (w3 (self s)) (oracle_address (self s)) COMPILED_ORACLE_PATH (Inr orc)]
        @ e1 @ [EvCall factory (getSmartContractAddress user) (Inr a)]
        @ [EvGetContract (w3 (self s)) a COMPILED_CLOUD_SLA_PATH (Inr c)] @ e2 @ p"
  from summary_append [OF summary_get_contract summary_append [OF summary_get_contract
      summary_append [OF d(1) summary_append [OF summary_call summary_append [OF summary_get_contract
      summary_append [OF d(2) d(3)]]]]]]
  have sm: "summary [createChild (address orc) user (toWei_ether (1 / 1000)) (60 ^ 2) 1 1, Deposit]
      [st1, st2] [(getSmartContractAddress user, a)] ?evs"
    by simp
  have ix: "py_index (accounts (self s)) 1 = Inr user"
    using us fr(2) by simp
  have tr': "trace s' = trace s @ ?evs"
    using tr same by simp
  have "\<exists>(orc :: contract) user st1 st2 evs.
        py_index (accounts (self s)) 1 = Inr user \<and>
        b = (truthy st1 \<and> truthy st2) \<and> trace s' = trace s @ evs \<and>
        summary [createChild (address orc) user (toWei_ether (1 / 1000)) (60 ^ 2) 1 1, Deposit]
          [st1, st2] [(getSmartContractAddress user, a)] evs"
    by (rule exI [of _ orc], rule exI [of _ user], rule exI [of _ st1], rule exI [of _ st2],
        rule exI [of _ ?evs]) (use ix b tr' sm in blast)
  with fr(1) show ?thesis ..
qed


lemma keepsI:
  assumes "\<And>s. self (snd (m s)) = self s"
    and "\<And>s. \<exists>evs. trace (snd (m s)) = trace s @ evs \<and> T (self s) evs"
  shows "keeps T m"
  using assms by (simp add: keeps_def)

lemma keepsD:
  assumes "keeps T m" and "m s = (r, s1)"
  shows "self s1 = self s \<and> (\<exists>evs. trace s1 = trace s @ evs \<and> T (self s) evs)"
proof -
  from assms(1) have "self (snd (m s)) = self s \<and>
      (\<exists>evs. trace (snd (m s)) = trace s @ evs \<and> T (self s) evs)"
    unfolding keeps_def by (rule spec)
  with assms(2) show ?thesis by simp
qed

lemma keeps_bind:
  assumes adm: "admissible T" and m: "keeps T m" and f: "\<And>x. keeps T (f x)"
  shows "keeps T (bind m f)"
proof (rule keepsI)
  fix s
  obtain r s1 where ms: "m s = (r, s1)" by force
  from keepsD [OF m ms] obtain e1 where
    s1: "self s1 = self s" "trace s1 = trace s @ e1" "T (self s) e1"
    by blast
  show "self (snd (bind m f s)) = self s"
  proof (cases r)
    case (Return x)
    with ms have "bind m f s = f x s1" by (simp add: bind_def)
    with keepsD [OF f [of x], of s1 "fst (f x s1)" "snd (f x s1)"] s1 show ?thesis by simp
  qed (use ms s1 in \<open>simp_all add: bind_def\<close>)
  show "\<exists>evs. trace (snd (bind m f s)) = trace s @ evs \<and> T (self s) evs"
  proof (cases r)
    case (Return x)
    with ms have run: "bind m f s = f x s1" by (simp add: bind_def)
    from keepsD [OF f [of x], of s1 "fst (f x s1)" "snd (f x s1)"]
    obtain e2 where "trace (snd (f x s1)) = trace s1 @ e2" "T (self s1) e2"
      by auto
    with s1 run have "trace (snd (bind m f s)) = trace s @ (e1 @ e2)" "T (self s) (e1 @ e2)"
      using adm by (simp_all add: admissible_def)
    then show ?thesis by blast
  qed (use ms s1 in \<open>auto simp: bind_def\<close>)
qed

lemma keeps_silent:
  assumes "admissible T" and "\<And>s. snd (m s) = s"
  shows "keeps T m"
  using assms by (simp add: keeps_def admissible_def)

lemma keeps_return: "admissible T \<Longrightarrow> keeps T (return x)"
  by (rule keeps_silent) (simp_all add: return_def)

lemma keeps_of_sum: "admissible T \<Longrightarrow> keeps T (of_sum r)"
  by (rule keeps_silent) (simp_all add: prog_defs split: sum.splits)

lemma keeps_get_self: "admissible T \<Longrightarrow> keeps T (get_self f)"
  by (rule keeps_silent) (simp_all add: get_self_def)

lemma keeps_self_accounts: "admissible T \<Longrightarrow> keeps T (self_accounts i)"
  by (rule keeps_silent) (simp_all add: prog_defs split: sum.splits)

lemma keeps_lib:
  assumes "admissible T" and "\<And>r. \<not> is_build (ev r)"
  shows "keeps T (lib f ev)"
  using assms by (auto simp: keeps_def admissible_def lib_def split: prod.splits)

lemma keeps_lib_get_contract: "admissible T \<Longrightarrow> keeps T (lib_get_contract env a p)"
  by (auto simp: keeps_def admissible_def lib_get_contract_def lib_def split: prod.splits)

lemma keeps_lib_call: "admissible T \<Longrightarrow> keeps T (lib_call env c fn)"
  unfolding lib_call_def by (rule keeps_lib) simp_all

lemma keeps_lib_print: "admissible T \<Longrightarrow> keeps T (lib_print env out)"
  by (auto simp: keeps_def admissible_def lib_print_def)

lemma keeps_if_then: "admissible T \<Longrightarrow> keeps T m \<Longrightarrow> keeps T (if_then b m)"
  by (simp add: if_then_def keeps_return)

lemmas keeps_intros = keeps_bind keeps_return keeps_of_sum keeps_get_self keeps_self_accounts
  keeps_lib_get_contract keeps_lib_call keeps_lib_print keeps_if_then

lemma sequence_upload_keeps:
  assumes adm: "admissible T"
    and st: "\<And>idx c fn extra. step_ok idx fn extra \<Longrightarrow> keeps T (step env idx c fn extra)"
  shows "keeps T (sequence_upload env cloud_address filepath hash_digest)"
  unfolding sequence_upload_steps
  by (intro keeps_intros adm st) (simp_all add: step_ok_def)

lemma sequence_read_keeps:
  assumes adm: "admissible T"
    and st: "\<And>idx c fn extra. step_ok idx fn extra \<Longrightarrow> keeps T (step env idx c fn extra)"
  shows "keeps T (sequence_read env cloud_address filepath url)"
  unfolding sequence_read_steps
  by (intro keeps_intros adm st) (simp_all add: step_ok_def)

lemma sequence_file_keeps:
  assumes adm: "admissible T"
    and st: "\<And>idx c fn extra. step_ok idx fn extra \<Longrightarrow> keeps T (step env idx c fn extra)"
  shows "keeps T (sequence_file env cloud_address filepath url hash_digest)"
  unfolding sequence_file_steps
  by (intro keeps_intros adm st) (simp_all add: step_ok_def)

lemma delete_file_keeps:
  assumes adm: "admissible T"
    and st: "\<And>idx c fn extra. step_ok idx fn extra \<Longrightarrow> keeps T (step env idx c fn extra)"
  shows "keeps T (delete_file env cloud_address)"
  unfolding delete_file_steps
  by (intro keeps_intros adm st) (simp_all add: step_ok_def)

lemma read_deny_lost_file_check_keeps:
  assumes adm: "admissible T"
    and st: "\<And>idx c fn extra. step_ok idx fn extra \<Longrightarrow> keeps T (step env idx c fn extra)"
  shows "keeps T (read_deny_lost_file_check env cloud_address)"
  unfolding read_deny_lost_file_check_steps
  by (intro keeps_intros adm st) (simp_all add: step_ok_def)

lemma another_file_upload_read_keeps:
  assumes adm: "admissible T"
    and st: "\<And>idx c fn extra. step_ok idx fn extra \<Longrightarrow> keeps T (step env idx c fn extra)"
  shows "keeps T (another_file_upload_read env cloud_address)"
  unfolding another_file_upload_read_def Let_def
  by (intro keeps_intros adm sequence_upload_keeps sequence_read_keeps st)

lemma cloud_sla_creation_activation_keeps:
  assumes adm: "admissible T"
    and st: "\<And>idx c fn extra. step_ok idx fn extra \<Longrightarrow> keeps T (step env idx c fn extra)"
  shows "keeps T (cloud_sla_creation_activation env)"
  unfolding cloud_sla_creation_activation_steps
  by (intro keeps_intros adm st) (simp_all add: step_ok_def)


lemma no_build_fresh: "list_all (\<lambda>e. \<not> is_build e) evs \<Longrightarrow> nonces_fresh evs"
  by (induction evs rule: nonces_fresh.induct) simp_all

lemma nonces_fresh_Cons: "\<not> is_build e \<Longrightarrow> nonces_fresh evs \<Longrightarrow> nonces_fresh (e # evs)"
  by (cases "(e # evs)" rule: nonces_fresh.cases) auto

lemma nonces_fresh_append: "nonces_fresh xs \<Longrightarrow> nonces_fresh ys \<Longrightarrow> nonces_fresh (xs @ ys)"
  by (induction xs rule: nonces_fresh.induct) (auto intro: nonces_fresh_Cons)


lemma submit_events_no_build: "submit_events tx pk sub \<Longrightarrow> list_all (\<lambda>e. \<not> is_build e) sub"
proof -
  have p: "list_all (\<lambda>e. \<not> is_build e) p" if "list_all is_print p" for p
    using that
  proof (induction p)
    case (Cons e p)
    then show ?case by (cases e) simp_all
  qed simp
  assume "submit_events tx pk sub"
  then show ?thesis by (auto simp: submit_events_def dest: p)
qed

lemma not_build_ok: "\<not> is_build e \<Longrightarrow> build_ok ob e"
  by (cases e) (simp_all add: build_ok_def)

lemma no_build_ok: "list_all (\<lambda>e. \<not> is_build e) evs \<Longrightarrow> list_all (build_ok ob) evs"
  by (induction evs) (simp_all add: not_build_ok)

lemma admissible_builds_ok: "admissible builds_ok"
  by (simp add: admissible_def builds_ok_def not_build_ok)

lemma admissible_nonces_fresh: "admissible (\<lambda>ob. nonces_fresh)"
  by (auto simp: admissible_def intro: nonces_fresh_append nonces_fresh_Cons)

lemma step_dict_lookup:
  "map_of (step_dict a n extra) ''gasPrice'' = Some (PInt 0)"
  "map_of (step_dict a n extra) ''from'' = Some (PStr a)"
  "map_of (step_dict a n extra) ''nonce'' = Some (PInt n)"
  by (simp_all add: step_dict_def)

lemma step_events_builds_ok:
  assumes ev: "step_events ob idx c fn extra evs" and ok: "step_ok idx fn extra"
  shows "builds_ok ob evs"
proof -
  have b: "build_ok ob (EvBuild c fn (step_dict a n extra) r)"
    if a: "py_index (accounts ob) idx = Inr a" for a n r
  proof -
    from ok have idx: "0 \<le> idx" "idx < 3" by (auto simp: step_ok_def)
    with a have "nat idx < 3" "nat idx < length (accounts ob)" "a = accounts ob ! nat idx"
      by (auto simp: py_index_nat split: if_splits)
    then have "\<exists>i<3. i < length (accounts ob) \<and>
        map_of (step_dict a n extra) ''from'' = Some (PStr (accounts ob ! i))"
      using step_dict_lookup(2) [of a n extra] by blast
    moreover have "map_of (step_dict a n extra) ''value'' =
        (if fn = Deposit then Some (PInt (toWei_ether (1 / 1000))) else None)"
      using ok by (cases fn) (simp_all add: step_ok_def step_dict_def)
    moreover have "\<forall>oa user price duration x y.
        fn = createChild oa user price duration x y \<longrightarrow> price = toWei_ether (1 / 1000)"
      using ok by (auto simp: step_ok_def)
    ultimately show ?thesis
      by (simp add: build_ok_def step_dict_lookup)
  qed
  from ev show ?thesis
    unfolding step_events_def builds_ok_def
    by (auto simp: build_ok_def [of _ "EvTxCount _ _"] intro: b
        dest!: submit_events_no_build no_build_ok [where ob = ob])
qed

lemma step_events_fresh:
  assumes "step_events ob idx c fn extra evs"
  shows "nonces_fresh evs"
  using assms unfolding step_events_def
  by (auto simp: step_dict_lookup dest!: submit_events_no_build no_build_fresh)

lemma keeps_weaken:
  assumes "keeps T m" and "\<And>ob evs. T ob evs \<Longrightarrow> T' ob evs"
  shows "keeps T' m"
proof (rule keepsI)
  fix s
  from keepsD [OF assms(1), of s "fst (m s)" "snd (m s)"]
  obtain evs where e: "self (snd (m s)) = self s" "trace (snd (m s)) = trace s @ evs" "T (self s) evs"
    by auto
  from e(1) show "self (snd (m s)) = self s" .
  from e(2) assms(2) [OF e(3)] show "\<exists>evs. trace (snd (m s)) = trace s @ evs \<and> T' (self s) evs"
    by blast
qed

lemma step_keeps_events: "keeps (\<lambda>ob. step_events ob idx c fn extra) (step env idx c fn extra)"
proof (rule keepsI)
  fix s
  from step_run [of env idx c fn extra s]
  show "self (snd (step env idx c fn extra s)) = self s"
    and "\<exists>evs. trace (snd (step env idx c fn extra s)) = trace s @ evs \<and>
      step_events (self s) idx c fn extra evs"
    by blast+
qed

lemma step_keeps_builds_ok: "step_ok idx fn extra \<Longrightarrow> keeps builds_ok (step env idx c fn extra)"
  by (rule keeps_weaken [OF step_keeps_events]) (rule step_events_builds_ok)

lemma step_keeps_fresh: "keeps (\<lambda>ob. nonces_fresh) (step env idx c fn extra)"
  by (rule keeps_weaken [OF step_keeps_events]) (rule step_events_fresh)

lemma keeps_new_events:
  "keeps T m \<Longrightarrow> self (snd (m s)) = self s \<and> T (self s) (new_events s (snd (m s)))"
  using keepsD [of T m s "fst (m s)" "snd (m s)"] by auto


lemma blindI:
  assumes "\<And>s t. agree s t \<Longrightarrow> fst (m s) = fst (m t) \<and> agree (snd (m s)) (snd (m t))"
  shows "blind m"
  using assms by (simp add: blind_def)

lemma blindD: "blind m \<Longrightarrow> agree s t \<Longrightarrow> fst (m s) = fst (m t) \<and> agree (snd (m s)) (snd (m t))"
  by (simp add: blind_def)

lemma blind_bind:
  fixes m :: "('a, 'w) prog"
  assumes m: "blind m" and f: "\<And>x. blind (f x)"
  shows "blind (bind m f)"
proof (rule blindI)
  fix s t :: "'w state"
  assume "agree s t"
  from blindD [OF m this] have r: "fst (m s) = fst (m t)" and a: "agree (snd (m s)) (snd (m t))"
    by simp_all
  obtain r1 s1 where ms: "m s = (r1, s1)" by force
  obtain r2 t1 where mt: "m t = (r2, t1)" by force
  from r a ms mt have eq: "r2 = r1" and a1: "agree s1 t1" by simp_all
  show "fst (bind m f s) = fst (bind m f t) \<and> agree (snd (bind m f s)) (snd (bind m f t))"
  proof (cases r1)
    case (Return x)
    with ms mt eq have "bind m f s = f x s1" "bind m f t = f x t1" by (simp_all add: bind_def)
    with blindD [OF f [of x] a1] show ?thesis by simp
  qed (use ms mt eq a1 in \<open>simp_all add: bind_def\<close>)
qed

lemma blind_return: "blind (return x)"
  by (simp add: blind_def return_def)

lemma blind_of_sum: "blind (of_sum r)"
  by (cases r) (simp_all add: blind_def prog_defs)

lemma blind_factory_address: "blind (get_self factory_address)"
  by (simp add: blind_def get_self_def agree_def same_fields_def)

lemma blind_oracle_address: "blind (get_self oracle_address)"
  by (simp add: blind_def get_self_def agree_def same_fields_def)

lemma blind_self_accounts: "blind (self_accounts i)"
  by (auto simp: blind_def prog_defs agree_def same_fields_def split: sum.splits)

lemma blind_self_private_keys: "blind (self_private_keys i)"
  by (auto simp: blind_def prog_defs agree_def same_fields_def split: sum.splits)

lemma blind_lib: "blind (lib f ev)"
  by (auto simp: blind_def lib_def agree_def split: prod.splits sum.splits)

lemma blind_lib_get_contract: "blind (lib_get_contract env a p)"
  by (auto simp: blind_def lib_get_contract_def lib_def agree_def same_fields_def
      split: prod.splits sum.splits)

lemma blind_lib_print: "blind (lib_print env out)"
  by (simp add: blind_def lib_print_def agree_def)

lemma blind_if_then: "blind m \<Longrightarrow> blind (if_then b m)"
  by (simp add: if_then_def blind_return)

lemma blind_try_except:
  fixes body :: "('a, 'w) prog"
  assumes b: "blind body" and h: "\<And>e. blind (handler e)" and o: "\<And>x. blind (orelse x)"
  shows "blind (try_except body handler orelse)"
proof (rule blindI)
  fix s t :: "'w state"
  assume "agree s t"
  from blindD [OF b this] have r: "fst (body s) = fst (body t)"
    and a: "agree (snd (body s)) (snd (body t))"
    by simp_all
  obtain r1 s1 where ms: "body s = (r1, s1)" by force
  obtain r2 t1 where mt: "body t = (r2, t1)" by force
  from r a ms mt have eq: "r2 = r1" and a1: "agree s1 t1" by simp_all
  show "fst (try_except body handler orelse s) = fst (try_except body handler orelse t) \<and>
      agree (snd (try_except body handler orelse s)) (snd (try_except body handler orelse t))"
  proof (cases r1)
    case (Return x)
    with ms mt eq blindD [OF o [of x] a1] show ?thesis by (simp add: try_except_def)
  next
    case (Raise e)
    with ms mt eq blindD [OF h [of e] a1] a1 show ?thesis by (simp add: try_except_def)
  next
    case Blocked
    with ms mt eq a1 show ?thesis by (simp add: try_except_def)
  qed
qed


lemma blind_sign_send_transaction: "blind (sign_send_transaction env tx pk)"
  unfolding sign_send_transaction_def lib_sign_transaction_def lib_send_raw_transaction_def
    lib_wait_for_transaction_receipt_def
  by (intro blind_try_except blind_bind blind_lib blind_return blind_if_then blind_lib_print
      blind_of_sum)

lemma blind_step: "blind (step env idx c fn extra)"
  unfolding step_def get_nonce_def lib_get_transaction_count_def lib_buildTransaction_def
  by (intro blind_bind blind_lib blind_return blind_self_accounts blind_self_private_keys
      blind_sign_send_transaction)

lemmas blind_intros = blind_bind blind_return blind_of_sum blind_factory_address
  blind_oracle_address blind_self_accounts blind_lib_get_contract blind_lib_print blind_if_then
  blind_step blind_lib

lemma blind_sequence_upload: "blind (sequence_upload env cloud_address filepath hash_digest)"
  unfolding sequence_upload_steps by (intro blind_intros)

lemma blind_sequence_read: "blind (sequence_read env cloud_address filepath url)"
  unfolding sequence_read_steps by (intro blind_intros)

lemma blind_sequence_file: "blind (sequence_file env cloud_address filepath url hash_digest)"
  unfolding sequence_file_steps by (intro blind_intros)

lemma blind_delete_file: "blind (delete_file env cloud_address)"
  unfolding delete_file_steps by (intro blind_intros)

lemma blind_read_deny_lost_file_check: "blind (read_deny_lost_file_check env cloud_address)"
  unfolding read_deny_lost_file_check_steps by (intro blind_intros)

lemma blind_another_file_upload_read: "blind (another_file_upload_read env cloud_address)"
  unfolding another_file_upload_read_def Let_def
  by (intro blind_intros blind_sequence_upload blind_sequence_read)

lemma blind_cloud_sla_creation_activation: "blind (cloud_sla_creation_activation env)"
  unfolding cloud_sla_creation_activation_steps lib_call_def by (intro blind_intros)

subsection \<open>The scenarios: results, steps, transactions and nonces\<close>

lemmas run_defs = sequence_upload_def sequence_read_def sequence_file_def delete_file_def
  read_deny_lost_file_check_def another_file_upload_read_def cloud_sla_creation_activation_def
  get_nonce_def sign_send_transaction_def try_except_def caught_def get_self_def
  lib_sign_transaction_def lib_send_raw_transaction_def lib_wait_for_transaction_receipt_def
  lib_get_contract_def lib_buildTransaction_def lib_call_def check_statuses_def py_getitem_def
  prog_defs demo_defs py_index_nat toWei_ether_def Let_def

lemma run_eq: "fst p = r \<Longrightarrow> p = (r, snd p)"
  by auto

lemma demo_sequence_upload:
  "fst (sequence_upload demo_env ''0xC'' ''test.pdf'' ''0x9f'' demo_state) = Return False"
  by (simp add: run_defs)

lemma demo_sequence_read:
  "fst (sequence_read demo_env ''0xC'' ''test.pdf'' ''www.test.com'' demo_state) = Return False"
  by (simp add: run_defs)

lemma demo_sequence_file:
  "fst (sequence_file demo_env ''0xC'' ''test.pdf'' ''www.test.com'' ''0x9f'' demo_state) = Return False"
  by (simp add: run_defs)

lemma demo_delete_file:
  "fst (delete_file demo_env ''0xC'' demo_state) = Return False"
  by (simp add: run_defs)

lemma demo_read_deny_lost_file_check:
  "fst (read_deny_lost_file_check demo_env ''0xC'' demo_state) = Return False"
  by (simp add: run_defs)

lemma demo_another_file_upload_read:
  "fst (another_file_upload_read demo_env ''0xC'' demo_state) = Return False"
  by (simp add: run_defs)

lemma demo_cloud_sla_creation_activation:
  "fst (cloud_sla_creation_activation demo_env demo_state) = Return (''0xC'', False)"
  by (simp add: run_defs)


lemma summary_and_of_statuses:
  assumes "summary fns sts calls evs" and "b = list_all truthy sts" and "length sts = n"
  shows "and_of_statuses n b evs"
proof -
  from assms(1) have c: "collect status_of evs = sts" by (simp add: summary_def)
  have "\<not> list_all truthy sts" if "PInt 0 \<in> set sts"
  proof -
    have "\<not> truthy (PInt 0)" by simp
    with that show ?thesis unfolding list_all_iff by blast
  qed
  with c assms(2,3) show ?thesis by (simp add: and_of_statuses_def)
qed

text \<open>
  Claim C2. Whenever a scenario returns, its boolean is the conjunction of the statuses of
  the transactions it submitted, one status per step, and a status 0 makes it false. The
  statuses are those of the submissions in the history of the run.
\<close>

theorem scenario_result_is_and:
  "(\<forall>a b s'. cloud_sla_creation_activation env s = (Return (a, b), s') \<longrightarrow>
      and_of_statuses 2 b (new_events s s')) \<and>
   (\<forall>b s'. sequence_upload env cloud_address filepath hash_digest s = (Return b, s') \<longrightarrow>
      and_of_statuses 3 b (new_events s s')) \<and>
   (\<forall>b s'. sequence_read env cloud_address filepath url s = (Return b, s') \<longrightarrow>
      and_of_statuses 2 b (new_events s s')) \<and>
   (\<forall>b s'. sequence_file env cloud_address filepath url hash_digest s = (Return b, s') \<longrightarrow>
      and_of_statuses 3 b (new_events s s')) \<and>
   (\<forall>b s'. delete_file env cloud_address s = (Return b, s') \<longrightarrow>
      and_of_statuses 2 b (new_events s s')) \<and>
   (\<forall>b s'. read_deny_lost_file_check env cloud_address s = (Return b, s') \<longrightarrow>
      and_of_statuses 2 b (new_events s s')) \<and>
   (\<forall>b s'. another_file_upload_read env cloud_address s = (Return b, s') \<longrightarrow>
      and_of_statuses 5 b (new_events s s'))"
proof (intro conjI allI impI)
  fix a b s'
  assume "cloud_sla_creation_activation env s = (Return (a, b), s')"
  from cloud_sla_creation_activation_run [OF this]
  show "and_of_statuses 2 b (new_events s s')"
    by (auto intro!: summary_and_of_statuses)
next
  fix b s'
  assume "sequence_upload env cloud_address filepath hash_digest s = (Return b, s')"
  from sequence_upload_run [OF this]
  show "and_of_statuses 3 b (new_events s s')"
    by (auto intro!: summary_and_of_statuses)
next
  fix b s'
  assume "sequence_read env cloud_address filepath url s = (Return b, s')"
  from sequence_read_run [OF this]
  show "and_of_statuses 2 b (new_events s s')"
    by (auto intro!: summary_and_of_statuses)
next
  fix b s'
  assume "sequence_file env cloud_address filepath url hash_digest s = (Return b, s')"
  from sequence_file_run [OF this]
  show "and_of_statuses 3 b (new_events s s')"
    by (auto intro!: summary_and_of_statuses)
next
  fix b s'
  assume "delete_file env cloud_address s = (Return b, s')"
  from delete_file_run [OF this]
  show "and_of_statuses 2 b (new_events s s')"
    by (auto intro!: summary_and_of_statuses)
next
  fix b s'
  assume "read_deny_lost_file_check env cloud_address s = (Return b, s')"
  from read_deny_lost_file_check_run [OF this]
  show "and_of_statuses 2 b (new_events s s')"
    by (auto intro!: summary_and_of_statuses)
next
  fix b s'
  assume "another_file_upload_read env cloud_address s = (Return b, s')"
  from another_file_upload_read_run [OF this]
  show "and_of_statuses 5 b (new_events s s')"
    by (auto intro!: summary_and_of_statuses)
qed


lemma demo_sequence_upload_statuses:
  "collect status_of (new_events demo_state
     (snd (sequence_upload demo_env ''0xC'' ''test.pdf'' ''0x9f'' demo_state))) = [PInt 0, PInt 1, PInt 1]"
  by (simp add: run_defs new_events_def)

theorem scenario_result_is_and_witness:
  "fst (cloud_sla_creation_activation demo_env demo_state) = Return (''0xC'', False) \<and>
   and_of_statuses 2 False
     (new_events demo_state (snd (cloud_sla_creation_activation demo_env demo_state))) \<and>
   fst (sequence_upload demo_env ''0xC'' ''test.pdf'' ''0x9f'' demo_state) = Return False \<and>
   and_of_statuses 3 False
     (new_events demo_state (snd (sequence_upload demo_env ''0xC'' ''test.pdf'' ''0x9f'' demo_state))) \<and>
   collect status_of (new_events demo_state
     (snd (sequence_upload demo_env ''0xC'' ''test.pdf'' ''0x9f'' demo_state))) = [PInt 0, PInt 1, PInt 1] \<and>
   fst (sequence_read demo_env ''0xC'' ''test.pdf'' ''www.test.com'' demo_state) = Return False \<and>
   and_of_statuses 2 False
     (new_events demo_state (snd (sequence_read demo_env ''0xC'' ''test.pdf'' ''www.test.com'' demo_state))) \<and>
   fst (sequence_file demo_env ''0xC'' ''test.pdf'' ''www.test.com'' ''0x9f'' demo_state) = Return False \<and>
   and_of_statuses 3 False
     (new_events demo_state
        (snd (sequence_file demo_env ''0xC'' ''test.pdf'' ''www.test.com'' ''0x9f'' demo_state))) \<and>
   fst (delete_file demo_env ''0xC'' demo_state) = Return False \<and>
   and_of_statuses 2 False (new_events demo_state (snd (delete_file demo_env ''0xC'' demo_state))) \<and>
   fst (read_deny_lost_file_check demo_env ''0xC'' demo_state) = Return False \<and>
   and_of_statuses 2 False
     (new_events demo_state (snd (read_deny_lost_file_check demo_env ''0xC'' demo_state))) \<and>
   fst (another_file_upload_read demo_env ''0xC'' demo_state) = Return False \<and>
   and_of_statuses 5 False
     (new_events demo_state (snd (another_file_upload_read demo_env ''0xC'' demo_state)))"
proof -
  note conj = scenario_result_is_and [of demo_env demo_state "''0xC''" "''test.pdf''" "''0x9f''"
      "''www.test.com''"]
  note runs = demo_cloud_sla_creation_activation [THEN run_eq] demo_sequence_upload [THEN run_eq]
    demo_sequence_read [THEN run_eq] demo_sequence_file [THEN run_eq] demo_delete_file [THEN run_eq]
    demo_read_deny_lost_file_check [THEN run_eq] demo_another_file_upload_read [THEN run_eq]
  have "and_of_statuses 2 False
     (new_events demo_state (snd (cloud_sla_creation_activation demo_env demo_state)))"
    using conj runs(1) by blast
  moreover have "and_of_statuses 3 False
     (new_events demo_state (snd (sequence_upload demo_env ''0xC'' ''test.pdf'' ''0x9f'' demo_state)))"
    using conj runs(2) by blast
  moreover have "and_of_statuses 2 False
     (new_events demo_state (snd (sequence_read demo_env ''0xC'' ''test.pdf'' ''www.test.com'' demo_state)))"
    using conj runs(3) by blast
  moreover have "and_of_statuses 3 False
     (new_events demo_state
        (snd (sequence_file demo_env ''0xC'' ''test.pdf'' ''www.test.com'' ''0x9f'' demo_state)))"
    using conj runs(4) by blast
  moreover have "and_of_statuses 2 False (new_events demo_state (snd (delete_file demo_env ''0xC'' demo_state)))"
    using conj runs(5) by blast
  moreover have "and_of_statuses 2 False
     (new_events demo_state (snd (read_deny_lost_file_check demo_env ''0xC'' demo_state)))"
    using conj runs(6) by blast
  moreover have "and_of_statuses 5 False
     (new_events demo_state (snd (another_file_upload_read demo_env ''0xC'' demo_state)))"
    using conj runs(7) by blast
  ultimately show ?thesis
    using demo_cloud_sla_creation_activation demo_sequence_upload demo_sequence_read
      demo_sequence_file demo_delete_file demo_read_deny_lost_file_check
      demo_another_file_upload_read demo_sequence_upload_statuses
    by simp
qed


lemma summary_once: "summary fns sts calls evs \<Longrightarrow> once_each fns evs"
  by (simp add: summary_def)

text \<open>
  Claim C9. Whenever \<open>cloud_sla_creation_activation\<close> returns, the address in its result is
  the one the factory's \<open>getSmartContractAddress\<close> returned for the second account, the only
  such call of the run, whatever the boolean beside it.
\<close>

theorem creation_returns_looked_up_address:
  "cloud_sla_creation_activation env s = (Return (a, b), s') \<Longrightarrow>
     \<exists>user. py_index (accounts (self s)) 1 = Inr user \<and>
       collect call_result (new_events s s') = [(getSmartContractAddress user, a)]"
proof -
  assume "cloud_sla_creation_activation env s = (Return (a, b), s')"
  from cloud_sla_creation_activation_run [OF this]
  show ?thesis by (auto simp: summary_def)
qed


lemma demo_cloud_sla_creation_activation_ok:
  "fst (cloud_sla_creation_activation demo_env demo_state_ok) = Return (''0xC'', True)"
  by (simp add: run_defs demo_state_ok_def)

theorem creation_returns_looked_up_address_witness:
  "fst (cloud_sla_creation_activation demo_env demo_state) = Return (''0xC'', False) \<and>
   collect call_result (new_events demo_state (snd (cloud_sla_creation_activation demo_env demo_state)))
     = [(getSmartContractAddress ''0xA1'', ''0xC'')] \<and>
   fst (cloud_sla_creation_activation demo_env demo_state_ok) = Return (''0xC'', True) \<and>
   collect call_result
     (new_events demo_state_ok (snd (cloud_sla_creation_activation demo_env demo_state_ok)))
     = [(getSmartContractAddress ''0xA1'', ''0xC'')]"
proof -
  have ix: "py_index (accounts (self demo_state)) 1 = Inr ''0xA1''"
    "py_index (accounts (self demo_state_ok)) 1 = Inr ''0xA1''"
    by (simp_all add: demo_defs demo_state_ok_def py_index_nat)
  from creation_returns_looked_up_address [OF demo_cloud_sla_creation_activation [THEN run_eq]] ix(1)
  have "collect call_result
      (new_events demo_state (snd (cloud_sla_creation_activation demo_env demo_state)))
     = [(getSmartContractAddress ''0xA1'', ''0xC'')]"
    by auto
  moreover
  from creation_returns_looked_up_address [OF demo_cloud_sla_creation_activation_ok [THEN run_eq]] ix(2)
  have "collect call_result
      (new_events demo_state_ok (snd (cloud_sla_creation_activation demo_env demo_state_ok)))
     = [(getSmartContractAddress ''0xA1'', ''0xC'')]"
    by auto
  ultimately show ?thesis
    using demo_cloud_sla_creation_activation demo_cloud_sla_creation_activation_ok by simp
qed


lemma ignores_noncesI:
  assumes k: "keeps (\<lambda>ob. nonces_fresh) m" and b: "blind m"
  shows "ignores_nonces m s"
proof -
  have "agree (s\<lparr>self := (self s)\<lparr>nonces := ns, locked := l\<rparr>\<rparr>) s" for ns l
    by (simp add: agree_def same_fields_def)
  from blindD [OF b this] keeps_new_events [OF k, of s] show ?thesis
    by (simp add: ignores_nonces_def agree_def)
qed

text \<open>
  Claim C5. Every dict a scenario passes to \<open>buildTransaction\<close> has gas price 0 and a sender
  among the first three accounts; it has a \<open>value\<close> entry exactly when the call is \<open>Deposit\<close>,
  and then the value is the price, the one \<open>createChild\<close> was given.
\<close>

theorem built_transactions_ok:
  "builds_ok (self s) (new_events s (snd (cloud_sla_creation_activation env s))) \<and>
   builds_ok (self s) (new_events s (snd (sequence_upload env cloud_address filepath hash_digest s))) \<and>
   builds_ok (self s) (new_events s (snd (sequence_read env cloud_address filepath url s))) \<and>
   builds_ok (self s) (new_events s (snd (sequence_file env cloud_address filepath url hash_digest s))) \<and>
   builds_ok (self s) (new_events s (snd (delete_file env cloud_address s))) \<and>
   builds_ok (self s) (new_events s (snd (read_deny_lost_file_check env cloud_address s))) \<and>
   builds_ok (self s) (new_events s (snd (another_file_upload_read env cloud_address s)))"
proof -
  have st: "step_ok idx fn extra \<Longrightarrow> keeps builds_ok (step env idx c fn extra)" for idx c fn extra
    by (rule step_keeps_builds_ok)
  note adm = admissible_builds_ok
  show ?thesis
    using keeps_new_events [OF cloud_sla_creation_activation_keeps [of builds_ok env, OF adm st], of s]
      keeps_new_events [OF sequence_upload_keeps [of builds_ok env, OF adm st], of _ _ _ s]
      keeps_new_events [OF sequence_read_keeps [of builds_ok env, OF adm st], of _ _ _ s]
      keeps_new_events [OF sequence_file_keeps [of builds_ok env, OF adm st], of _ _ _ _ s]
      keeps_new_events [OF delete_file_keeps [of builds_ok env, OF adm st], of _ s]
      keeps_new_events [OF read_deny_lost_file_check_keeps [of builds_ok env, OF adm st], of _ s]
      keeps_new_events [OF another_file_upload_read_keeps [of builds_ok env, OF adm st], of _ s]
    by simp
qed

text \<open>
  Claim C8. No scenario reads or writes the stored nonces or the lock: each leaves the
  object unchanged, takes the nonce of every transaction from the count the node has just
  returned for the sender, and runs the same whatever the stored nonces and the lock are.
\<close>

theorem scenarios_ignore_nonces:
  "ignores_nonces (cloud_sla_creation_activation env) s \<and>
   ignores_nonces (sequence_upload env cloud_address filepath hash_digest) s \<and>
   ignores_nonces (sequence_read env cloud_address filepath url) s \<and>
   ignores_nonces (sequence_file env cloud_address filepath url hash_digest) s \<and>
   ignores_nonces (delete_file env cloud_address) s \<and>
   ignores_nonces (read_deny_lost_file_check env cloud_address) s \<and>
   ignores_nonces (another_file_upload_read env cloud_address) s"
  by (intro conjI ignores_noncesI
      cloud_sla_creation_activation_keeps sequence_upload_keeps sequence_read_keeps
      sequence_file_keeps delete_file_keeps read_deny_lost_file_check_keeps
      another_file_upload_read_keeps admissible_nonces_fresh step_keeps_fresh
      blind_cloud_sla_creation_activation blind_sequence_upload blind_sequence_read
      blind_sequence_file blind_delete_file blind_read_deny_lost_file_check
      blind_another_file_upload_read)


lemma demo_creation_dicts:
  "collect build_dict (new_events demo_state (snd (cloud_sla_creation_activation demo_env demo_state))) =
     [[(''gasPrice'', PInt 0), (''from'', PStr ''0xA0''), (''nonce'', PInt 4)],
      [(''gasPrice'', PInt 0), (''from'', PStr ''0xA1''), (''nonce'', PInt 5),
       (''value'', PInt 1000000000000000)]]"
  by (simp add: run_defs new_events_def)

lemma demo_upload_dicts:
  "collect build_dict (new_events demo_state
     (snd (sequence_upload demo_env ''0xC'' ''test.pdf'' ''0x9f'' demo_state))) =
     [[(''gasPrice'', PInt 0), (''from'', PStr ''0xA1''), (''nonce'', PInt 4)],
      [(''gasPrice'', PInt 0), (''from'', PStr ''0xA0''), (''nonce'', PInt 4)],
      [(''gasPrice'', PInt 0), (''from'', PStr ''0xA0''), (''nonce'', PInt 5)]]"
  by (simp add: run_defs new_events_def)

theorem built_transactions_ok_witness:
  "builds_ok demo_self (new_events demo_state (snd (cloud_sla_creation_activation demo_env demo_state))) \<and>
   collect build_dict (new_events demo_state (snd (cloud_sla_creation_activation demo_env demo_state))) =
     [[(''gasPrice'', PInt 0), (''from'', PStr ''0xA0''), (''nonce'', PInt 4)],
      [(''gasPrice'', PInt 0), (''from'', PStr ''0xA1''), (''nonce'', PInt 5),
       (''value'', PInt 1000000000000000)]] \<and>
   builds_ok demo_self
     (new_events demo_state (snd (sequence_upload demo_env ''0xC'' ''test.pdf'' ''0x9f'' demo_state))) \<and>
   builds_ok demo_self
     (new_events demo_state (snd (sequence_read demo_env ''0xC'' ''test.pdf'' ''www.test.com'' demo_state))) \<and>
   builds_ok demo_self
     (new_events demo_state
        (snd (sequence_file demo_env ''0xC'' ''test.pdf'' ''www.test.com'' ''0x9f'' demo_state))) \<and>
   builds_ok demo_self (new_events demo_state (snd (delete_file demo_env ''0xC'' demo_state))) \<and>
   builds_ok demo_self
     (new_events demo_state (snd (read_deny_lost_file_check demo_env ''0xC'' demo_state))) \<and>
   builds_ok demo_self
     (new_events demo_state (snd (another_file_upload_read demo_env ''0xC'' demo_state)))"
proof -
  have ob: "self demo_state = demo_self" by (simp add: demo_state_def)
  from built_transactions_ok [of demo_state demo_env "''0xC''" "''test.pdf''" "''0x9f''"
      "''www.test.com''"]
  show ?thesis unfolding ob using demo_creation_dicts by blast
qed

theorem scenarios_ignore_nonces_witness:
  "ignores_nonces (cloud_sla_creation_activation demo_env) demo_state \<and>
   ignores_nonces (sequence_upload demo_env ''0xC'' ''test.pdf'' ''0x9f'') demo_state \<and>
   ignores_nonces (sequence_read demo_env ''0xC'' ''test.pdf'' ''www.test.com'') demo_state \<and>
   ignores_nonces (sequence_file demo_env ''0xC'' ''test.pdf'' ''www.test.com'' ''0x9f'') demo_state \<and>
   ignores_nonces (delete_file demo_env ''0xC'') demo_state \<and>
   ignores_nonces (read_deny_lost_file_check demo_env ''0xC'') demo_state \<and>
   ignores_nonces (another_file_upload_read demo_env ''0xC'') demo_state \<and>
   nonces (self (snd (sequence_upload demo_env ''0xC'' ''test.pdf'' ''0x9f'' demo_state))) = [5, 7, 9] \<and>
   collect build_dict (new_events demo_state
     (snd (sequence_upload demo_env ''0xC'' ''test.pdf'' ''0x9f'' demo_state))) =
     [[(''gasPrice'', PInt 0), (''from'', PStr ''0xA1''), (''nonce'', PInt 4)],
      [(''gasPrice'', PInt 0), (''from'', PStr ''0xA0''), (''nonce'', PInt 4)],
      [(''gasPrice'', PInt 0), (''from'', PStr ''0xA0''), (''nonce'', PInt 5)]] \<and>
   fst (sequence_upload demo_env ''0xC'' ''test.pdf'' ''0x9f''
          (demo_state\<lparr>self := (self demo_state)\<lparr>nonces := [0, 0, 0], locked := True\<rparr>\<rparr>)) = Return False"
proof -
  note ign = scenarios_ignore_nonces [of demo_env demo_state "''0xC''" "''test.pdf''" "''0x9f''"
      "''www.test.com''"]
  from ign have up: "ignores_nonces (sequence_upload demo_env ''0xC'' ''test.pdf'' ''0x9f'') demo_state"
    by blast
  from up have "self (snd (sequence_upload demo_env ''0xC'' ''test.pdf'' ''0x9f'' demo_state)) = self demo_state"
    by (simp add: ignores_nonces_def)
  then have n: "nonces (self (snd (sequence_upload demo_env ''0xC'' ''test.pdf'' ''0x9f'' demo_state))) = [5, 7, 9]"
    by (simp add: demo_defs)
  from up have "fst (sequence_upload demo_env ''0xC'' ''test.pdf'' ''0x9f''
          (demo_state\<lparr>self := (self demo_state)\<lparr>nonces := [0, 0, 0], locked := True\<rparr>\<rparr>))
      = fst (sequence_upload demo_env ''0xC'' ''test.pdf'' ''0x9f'' demo_state)"
    unfolding ignores_nonces_def by blast
  with demo_sequence_upload
  have r: "fst (sequence_upload demo_env ''0xC'' ''test.pdf'' ''0x9f''
          (demo_state\<lparr>self := (self demo_state)\<lparr>nonces := [0, 0, 0], locked := True\<rparr>\<rparr>)) = Return False"
    by simp
  from ign n r demo_upload_dicts show ?thesis by blast
qed

subsection \<open>Scenarios return when only submissions fail\<close>

lemma reliableD:
  assumes "reliable env"
  shows "\<exists>c w'. get_contract env p a art w = (Inr c, w')"
    and "\<exists>n w'. get_transaction_count env a w = (Inr n, w')"
    and "\<exists>b. solidityKeccak env ts vs = Inr b"
    and "\<exists>a w'. call env c fn w = (Inr a, w')"
    and "\<exists>tx w'. buildTransaction env c fn d w = (Inr tx, w')"
    and "sign_transaction env tx pk w = (Inl e, w') \<Longrightarrow> caught e"
    and "send_raw_transaction env raw w = (Inl e, w') \<Longrightarrow> caught e"
    and "wait_for_transaction_receipt env h w = (Inl e, w') \<Longrightarrow> caught e"
    and "wait_for_transaction_receipt env h w = (Inr receipt, w') \<Longrightarrow>
        map_of receipt ''status'' \<noteq> None"
proof -
  from assms have
    1: "\<forall>p a art w. \<exists>c w'. get_contract env p a art w = (Inr c, w')" and
    2: "\<forall>a w. \<exists>n w'. get_transaction_count env a w = (Inr n, w')" and
    3: "\<forall>ts vs. \<exists>b. solidityKeccak env ts vs = Inr b" and
    4: "\<forall>c fn w. \<exists>a w'. call env c fn w = (Inr a, w')" and
    5: "\<forall>c fn d w. \<exists>tx w'. buildTransaction env c fn d w = (Inr tx, w')" and
    6: "\<forall>tx pk w e w'. sign_transaction env tx pk w = (Inl e, w') \<longrightarrow> caught e" and
    7: "\<forall>raw w e w'. send_raw_transaction env raw w = (Inl e, w') \<longrightarrow> caught e" and
    8: "\<forall>h w e w'. wait_for_transaction_receipt env h w = (Inl e, w') \<longrightarrow> caught e" and
    9: "\<forall>h w receipt w'. wait_for_transaction_receipt env h w = (Inr receipt, w') \<longrightarrow>
        map_of receipt ''status'' \<noteq> None"
    unfolding reliable_def by simp_all
  from 1 show "\<exists>c w'. get_contract env p a art w = (Inr c, w')" by simp
  from 2 show "\<exists>n w'. get_transaction_count env a w = (Inr n, w')" by simp
  from 3 show "\<exists>b. solidityKeccak env ts vs = Inr b" by simp
  from 4 show "\<exists>a w'. call env c fn w = (Inr a, w')" by simp
  from 5 show "\<exists>tx w'. buildTransaction env c fn d w = (Inr tx, w')" by simp
  from 6 show "sign_transaction env tx pk w = (Inl e, w') \<Longrightarrow> caught e" by blast
  from 7 show "send_raw_transaction env raw w = (Inl e, w') \<Longrightarrow> caught e" by blast
  from 8 show "wait_for_transaction_receipt env h w = (Inl e, w') \<Longrightarrow> caught e" by blast
  from 9 show "wait_for_transaction_receipt env h w = (Inr receipt, w') \<Longrightarrow>
        map_of receipt ''status'' \<noteq> None" by blast
qed

lemma returnsI:
  assumes "\<And>s. equipped (self s) \<Longrightarrow> \<exists>x s'. m s = (Return x, s') \<and> self s' = self s"
  shows "returns m"
  using assms by (simp add: returns_def)

lemma returnsD:
  "returns m \<Longrightarrow> equipped (self s) \<Longrightarrow> \<exists>x s'. m s = (Return x, s') \<and> self s' = self s"
  by (simp add: returns_def)

lemma returns_bind:
  fixes m :: "('a, 'w) prog"
  assumes m: "returns m" and f: "\<And>x. returns (f x)"
  shows "returns (bind m f)"
proof (rule returnsI)
  fix s :: "'w state"
  assume eq: "equipped (self s)"
  from returnsD [OF m eq] obtain x s1 where 1: "m s = (Return x, s1)" "self s1 = self s"
    by blast
  with eq have "equipped (self s1)" by simp
  from returnsD [OF f [of x] this] obtain y s2 where 2: "f x s1 = (Return y, s2)" "self s2 = self s1"
    by blast
  from 1 2 have "bind m f s = (Return y, s2)" "self s2 = self s"
    by (simp_all add: bind_def)
  then show "\<exists>x s'. bind m f s = (Return x, s') \<and> self s' = self s" by blast
qed

lemma returns_return: "returns (return x)"
  by (simp add: returns_def return_def)

lemma returns_get_self: "returns (get_self f)"
  by (simp add: returns_def get_self_def)

lemma returns_keccak: "reliable env \<Longrightarrow> returns (of_sum (solidityKeccak env ts vs))"
proof -
  assume "reliable env"
  from reliableD(3) [OF this] obtain b where "solidityKeccak env ts vs = Inr b"
    by blast
  then show ?thesis by (simp add: returns_def prog_defs)
qed

lemma returns_self_accounts: "i \<in> {0, 1, 2} \<Longrightarrow> returns (self_accounts i)"
  by (auto simp: returns_def equipped_def prog_defs py_index_nat)

lemma returns_self_private_keys: "i \<in> {0, 1, 2} \<Longrightarrow> returns (self_private_keys i)"
  by (auto simp: returns_def equipped_def prog_defs py_index_nat)

lemma returns_lib:
  fixes f :: "'w \<Rightarrow> (exn + 'a) \<times> 'w"
  assumes "\<And>w. \<exists>x w'. f w = (Inr x, w')"
  shows "returns (lib f ev)"
proof (rule returnsI)
  fix s :: "'w state"
  from assms [of "world s"] obtain x w' where "f (world s) = (Inr x, w')" by blast
  then show "\<exists>x s'. lib f ev s = (Return x, s') \<and> self s' = self s"
    by (simp add: lib_def)
qed

lemma returns_lib_get_contract:
  fixes env :: "'w env"
  assumes "reliable env"
  shows "returns (lib_get_contract env a p)"
proof (rule returnsI)
  fix s :: "'w state"
  from reliableD(1) [OF assms]
  obtain c w' where "get_contract env (w3 (self s)) a p (world s) = (Inr c, w')"
    by blast
  then show "\<exists>x s'. lib_get_contract env a p s = (Return x, s') \<and> self s' = self s"
    by (simp add: lib_get_contract_def lib_def)
qed

lemma returns_lib_get_transaction_count: "reliable env \<Longrightarrow> returns (lib_get_transaction_count env a)"
  unfolding lib_get_transaction_count_def by (rule returns_lib) (rule reliableD(2))

lemma returns_lib_call: "reliable env \<Longrightarrow> returns (lib_call env c fn)"
  unfolding lib_call_def by (rule returns_lib) (rule reliableD(4))

lemma returns_lib_buildTransaction: "reliable env \<Longrightarrow> returns (lib_buildTransaction env c fn d)"
  unfolding lib_buildTransaction_def by (rule returns_lib) (rule reliableD(5))

lemma returns_lib_print: "returns (lib_print env out)"
  by (simp add: returns_def lib_print_def)

lemma returns_if_then: "returns m \<Longrightarrow> returns (if_then b m)"
  by (simp add: if_then_def returns_return)

lemma returns_sign_send_transaction:
  fixes env :: "'w env"
  assumes r: "reliable env"
  shows "returns (sign_send_transaction env tx pk)"
proof (rule returnsI)
  fix s :: "'w state"
  note sg = reliableD(6) [OF r] and sd = reliableD(7) [OF r] and wt = reliableD(8) [OF r]
    and rc = reliableD(9) [OF r]
  show "\<exists>x s'. sign_send_transaction env tx pk s = (Return x, s') \<and> self s' = self s"
    by (auto simp: sign_send_transaction_def try_except_def prog_defs py_getitem_def
        lib_sign_transaction_def lib_send_raw_transaction_def lib_wait_for_transaction_receipt_def
        split: prod.splits sum.splits outcome.splits option.splits
        dest: sg sd wt rc)
qed

lemma returns_step:
  "reliable env \<Longrightarrow> idx \<in> {0, 1, 2} \<Longrightarrow> returns (step env idx c fn extra)"
  unfolding step_def get_nonce_def
  by (intro returns_bind returns_self_accounts returns_self_private_keys returns_return
      returns_lib_get_transaction_count returns_lib_buildTransaction returns_sign_send_transaction)

lemmas returns_intros = returns_bind returns_return returns_get_self returns_keccak
  returns_self_accounts returns_lib_get_contract returns_lib_call returns_lib_print
  returns_if_then returns_step

lemma returns_sequence_upload:
  "reliable env \<Longrightarrow> returns (sequence_upload env cloud_address filepath hash_digest)"
  unfolding sequence_upload_steps by (intro returns_intros) simp_all

lemma returns_sequence_read:
  "reliable env \<Longrightarrow> returns (sequence_read env cloud_address filepath url)"
  unfolding sequence_read_steps by (intro returns_intros) simp_all

lemma returns_sequence_file:
  "reliable env \<Longrightarrow> returns (sequence_file env cloud_address filepath url hash_digest)"
  unfolding sequence_file_steps by (intro returns_intros) simp_all

lemma returns_delete_file: "reliable env \<Longrightarrow> returns (delete_file env cloud_address)"
  unfolding delete_file_steps by (intro returns_intros) simp_all

lemma returns_read_deny_lost_file_check:
  "reliable env \<Longrightarrow> returns (read_deny_lost_file_check env cloud_address)"
  unfolding read_deny_lost_file_check_steps by (intro returns_intros) simp_all

lemma returns_another_file_upload_read:
  "reliable env \<Longrightarrow> returns (another_file_upload_read env cloud_address)"
  unfolding another_file_upload_read_def Let_def
  by (intro returns_intros returns_sequence_upload returns_sequence_read)

lemma returns_cloud_sla_creation_activation:
  "reliable env \<Longrightarrow> returns (cloud_sla_creation_activation env)"
  unfolding cloud_sla_creation_activation_steps by (intro returns_intros) simp_all

lemma reliable_demo_env: "reliable demo_env"
  by (simp add: reliable_def demo_env_def caught_def)

text \<open>
  Claim C4. Whenever a scenario returns, whatever the statuses were, the history of its run
  shows each of its transactions built once, in the order of the source, each built
  transaction handed once to the submission, each signed transaction sent once and each
  sent transaction awaited once: no step is repeated and none is skipped after a failure.
  And a scenario does return when nothing but submissions fail: with a library that is
  \<open>reliable\<close> and an object that is \<open>equipped\<close>, every scenario returns.
\<close>

theorem scenario_steps_once:
  "(\<forall>a b s'. cloud_sla_creation_activation env s = (Return (a, b), s') \<longrightarrow>
      (\<exists>(orc :: contract) user.
         once_each [createChild (address orc) user (toWei_ether (1 / 1000)) (60 ^ 2) 1 1, Deposit]
           (new_events s s'))) \<and>
   (\<forall>b s'. sequence_upload env cloud_address filepath hash_digest s = (Return b, s') \<longrightarrow>
      (\<exists>challenge.
         once_each [UploadRequest filepath challenge, UploadRequestAck filepath,
                    UploadTransferAck filepath hash_digest] (new_events s s'))) \<and>
   (\<forall>b s'. sequence_read env cloud_address filepath url s = (Return b, s') \<longrightarrow>
      once_each [ReadRequest filepath, ReadRequestAck filepath url] (new_events s s')) \<and>
   (\<forall>b s'. sequence_file env cloud_address filepath url hash_digest s = (Return b, s') \<longrightarrow>
      once_each [FileHashRequest filepath, DigestStore url hash_digest, FileCheck filepath]
        (new_events s s')) \<and>
   (\<forall>b s'. delete_file env cloud_address s = (Return b, s') \<longrightarrow>
      once_each [DeleteRequest ''test.pdf'', Delete ''test.pdf''] (new_events s s')) \<and>
   (\<forall>b s'. read_deny_lost_file_check env cloud_address s = (Return b, s') \<longrightarrow>
      once_each [ReadRequest ''test2.pdf'', ReadRequestDeny ''test2.pdf''] (new_events s s')) \<and>
   (\<forall>b s'. another_file_upload_read env cloud_address s = (Return b, s') \<longrightarrow>
      (\<exists>challenge.
         once_each [UploadRequest ''test3.pdf'' challenge, UploadRequestAck ''test3.pdf'',
                    UploadTransferAck ''test3.pdf'' upload_read_digest,
                    ReadRequest ''test3.pdf'', ReadRequestAck ''test3.pdf'' ''www.test3.com'']
           (new_events s s'))) \<and>
   (reliable env \<and> equipped (self s) \<longrightarrow>
      (\<exists>r s'. cloud_sla_creation_activation env s = (Return r, s')) \<and>
      (\<exists>b s'. sequence_upload env cloud_address filepath hash_digest s = (Return b, s')) \<and>
      (\<exists>b s'. sequence_read env cloud_address filepath url s = (Return b, s')) \<and>
      (\<exists>b s'. sequence_file env cloud_address filepath url hash_digest s = (Return b, s')) \<and>
      (\<exists>b s'. delete_file env cloud_address s = (Return b, s')) \<and>
      (\<exists>b s'. read_deny_lost_file_check env cloud_address s = (Return b, s')) \<and>
      (\<exists>b s'. another_file_upload_read env cloud_address s = (Return b, s')))"
proof (intro conjI allI impI)
  fix a b s'
  assume "cloud_sla_creation_activation env s = (Return (a, b), s')"
  from cloud_sla_creation_activation_run [OF this]
  obtain orc :: contract and user st1 st2 evs where
    "trace s' = trace s @ evs"
    "summary [createChild (address orc) user (toWei_ether (1 / 1000)) (60 ^ 2) 1 1, Deposit]
       [st1, st2] [(getSmartContractAddress user, a)] evs"
    by blast
  then have "once_each [createChild (address orc) user (toWei_ether (1 / 1000)) (60 ^ 2) 1 1, Deposit]
      (new_events s s')"
    by (simp add: summary_def)
  then show "\<exists>(orc :: contract) user.
         once_each [createChild (address orc) user (toWei_ether (1 / 1000)) (60 ^ 2) 1 1, Deposit]
           (new_events s s')"
    by blast
next
  fix b s'
  assume "sequence_upload env cloud_address filepath hash_digest s = (Return b, s')"
  from sequence_upload_run [OF this]
  show "\<exists>challenge.
         once_each [UploadRequest filepath challenge, UploadRequestAck filepath,
                    UploadTransferAck filepath hash_digest] (new_events s s')"
    by (auto dest!: summary_once)
next
  fix b s'
  assume "sequence_read env cloud_address filepath url s = (Return b, s')"
  from sequence_read_run [OF this]
  show "once_each [ReadRequest filepath, ReadRequestAck filepath url] (new_events s s')"
    by (auto dest!: summary_once)
next
  fix b s'
  assume "sequence_file env cloud_address filepath url hash_digest s = (Return b, s')"
  from sequence_file_run [OF this]
  show "once_each [FileHashRequest filepath, DigestStore url hash_digest, FileCheck filepath]
        (new_events s s')"
    by (auto dest!: summary_once)
next
  fix b s'
  assume "delete_file env cloud_address s = (Return b, s')"
  from delete_file_run [OF this]
  show "once_each [DeleteRequest ''test.pdf'', Delete ''test.pdf''] (new_events s s')"
    by (auto dest!: summary_once)
next
  fix b s'
  assume "read_deny_lost_file_check env cloud_address s = (Return b, s')"
  from read_deny_lost_file_check_run [OF this]
  show "once_each [ReadRequest ''test2.pdf'', ReadRequestDeny ''test2.pdf''] (new_events s s')"
    by (auto dest!: summary_once)
next
  fix b s'
  assume "another_file_upload_read env cloud_address s = (Return b, s')"
  from another_file_upload_read_run [OF this]
  show "\<exists>challenge.
         once_each [UploadRequest ''test3.pdf'' challenge, UploadRequestAck ''test3.pdf'',
                    UploadTransferAck ''test3.pdf'' upload_read_digest,
                    ReadRequest ''test3.pdf'', ReadRequestAck ''test3.pdf'' ''www.test3.com'']
           (new_events s s')"
    by (auto dest!: summary_once)
next
  assume "reliable env \<and> equipped (self s)"
  then have r: "reliable env" and e: "equipped (self s)" by simp_all
  from returnsD [OF returns_cloud_sla_creation_activation [OF r] e]
  show "\<exists>r s'. cloud_sla_creation_activation env s = (Return r, s')" by blast
  from returnsD [OF returns_sequence_upload [OF r] e]
  show "\<exists>b s'. sequence_upload env cloud_address filepath hash_digest s = (Return b, s')" by blast
  from returnsD [OF returns_sequence_read [OF r] e]
  show "\<exists>b s'. sequence_read env cloud_address filepath url s = (Return b, s')" by blast
  from returnsD [OF returns_sequence_file [OF r] e]
  show "\<exists>b s'. sequence_file env cloud_address filepath url hash_digest s = (Return b, s')" by blast
  from returnsD [OF returns_delete_file [OF r] e]
  show "\<exists>b s'. delete_file env cloud_address s = (Return b, s')" by blast
  from returnsD [OF returns_read_deny_lost_file_check [OF r] e]
  show "\<exists>b s'. read_deny_lost_file_check env cloud_address s = (Return b, s')" by blast
  from returnsD [OF returns_another_file_upload_read [OF r] e]
  show "\<exists>b s'. another_file_upload_read env cloud_address s = (Return b, s')" by blast
qed

lemma demo_sequence_upload_builds:
  "collect build_call (new_events demo_state
     (snd (sequence_upload demo_env ''0xC'' ''test.pdf'' ''0x9f'' demo_state))) =
     [UploadRequest ''test.pdf'' [], UploadRequestAck ''test.pdf'', UploadTransferAck ''test.pdf'' ''0x9f'']"
  by (simp add: run_defs new_events_def)

theorem scenario_steps_once_witness:
  "reliable demo_env \<and> equipped (self demo_state) \<and>
   fst (cloud_sla_creation_activation demo_env demo_state) = Return (''0xC'', False) \<and>
   (\<exists>(orc :: contract) user.
      once_each [createChild (address orc) user (toWei_ether (1 / 1000)) (60 ^ 2) 1 1, Deposit]
        (new_events demo_state (snd (cloud_sla_creation_activation demo_env demo_state)))) \<and>
   fst (sequence_upload demo_env ''0xC'' ''test.pdf'' ''0x9f'' demo_state) = Return False \<and>
   (\<exists>challenge.
      once_each [UploadRequest ''test.pdf'' challenge, UploadRequestAck ''test.pdf'',
                 UploadTransferAck ''test.pdf'' ''0x9f'']
        (new_events demo_state (snd (sequence_upload demo_env ''0xC'' ''test.pdf'' ''0x9f'' demo_state)))) \<and>
   collect build_call (new_events demo_state
     (snd (sequence_upload demo_env ''0xC'' ''test.pdf'' ''0x9f'' demo_state))) =
     [UploadRequest ''test.pdf'' [], UploadRequestAck ''test.pdf'', UploadTransferAck ''test.pdf'' ''0x9f''] \<and>
   fst (sequence_read demo_env ''0xC'' ''test.pdf'' ''www.test.com'' demo_state) = Return False \<and>
   once_each [ReadRequest ''test.pdf'', ReadRequestAck ''test.pdf'' ''www.test.com'']
     (new_events demo_state (snd (sequence_read demo_env ''0xC'' ''test.pdf'' ''www.test.com'' demo_state))) \<and>
   fst (sequence_file demo_env ''0xC'' ''test.pdf'' ''www.test.com'' ''0x9f'' demo_state) = Return False \<and>
   once_each [FileHashRequest ''test.pdf'', DigestStore ''www.test.com'' ''0x9f'', FileCheck ''test.pdf'']
     (new_events demo_state
        (snd (sequence_file demo_env ''0xC'' ''test.pdf'' ''www.test.com'' ''0x9f'' demo_state))) \<and>
   fst (delete_file demo_env ''0xC'' demo_state) = Return False \<and>
   once_each [DeleteRequest ''test.pdf'', Delete ''test.pdf'']
     (new_events demo_state (snd (delete_file demo_env ''0xC'' demo_state))) \<and>
   fst (read_deny_lost_file_check demo_env ''0xC'' demo_state) = Return False \<and>
   once_each [ReadRequest ''test2.pdf'', ReadRequestDeny ''test2.pdf'']
     (new_events demo_state (snd (read_deny_lost_file_check demo_env ''0xC'' demo_state))) \<and>
   fst (another_file_upload_read demo_env ''0xC'' demo_state) = Return False \<and>
   (\<exists>challenge.
      once_each [UploadRequest ''test3.pdf'' challenge, UploadRequestAck ''test3.pdf'',
                 UploadTransferAck ''test3.pdf'' upload_read_digest,
                 ReadRequest ''test3.pdf'', ReadRequestAck ''test3.pdf'' ''www.test3.com'']
        (new_events demo_state (snd (another_file_upload_read demo_env ''0xC'' demo_state))))"
proof -
  note once = scenario_steps_once [of demo_env demo_state "''0xC''" "''test.pdf''" "''0x9f''"
      "''www.test.com''"]
  note runs = demo_cloud_sla_creation_activation [THEN run_eq] demo_sequence_upload [THEN run_eq]
    demo_sequence_read [THEN run_eq] demo_sequence_file [THEN run_eq] demo_delete_file [THEN run_eq]
    demo_read_deny_lost_file_check [THEN run_eq] demo_another_file_upload_read [THEN run_eq]
  have "\<exists>(orc :: contract) user.
      once_each [createChild (address orc) user (toWei_ether (1 / 1000)) (60 ^ 2) 1 1, Deposit]
        (new_events demo_state (snd (cloud_sla_creation_activation demo_env demo_state)))"
    using once runs(1) by blast
  moreover have "\<exists>challenge.
      once_each [UploadRequest ''test.pdf'' challenge, UploadRequestAck ''test.pdf'',
                 UploadTransferAck ''test.pdf'' ''0x9f'']
        (new_events demo_state (snd (sequence_upload demo_env ''0xC'' ''test.pdf'' ''0x9f'' demo_state)))"
    using once runs(2) by blast
  moreover have "once_each [ReadRequest ''test.pdf'', ReadRequestAck ''test.pdf'' ''www.test.com'']
     (new_events demo_state (snd (sequence_read demo_env ''0xC'' ''test.pdf'' ''www.test.com'' demo_state)))"
    using once runs(3) by blast
  moreover have "once_each [FileHashRequest ''test.pdf'', DigestStore ''www.test.com'' ''0x9f'', FileCheck ''test.pdf'']
     (new_events demo_state
        (snd (sequence_file demo_env ''0xC'' ''test.pdf'' ''www.test.com'' ''0x9f'' demo_state)))"
    using once runs(4) by blast
  moreover have "once_each [DeleteRequest ''test.pdf'', Delete ''test.pdf'']
     (new_events demo_state (snd (delete_file demo_env ''0xC'' demo_state)))"
    using once runs(5) by blast
  moreover have "once_each [ReadRequest ''test2.pdf'', ReadRequestDeny ''test2.pdf'']
     (new_events demo_state (snd (read_deny_lost_file_check demo_env ''0xC'' demo_state)))"
    using once runs(6) by blast
  moreover have "\<exists>challenge.
      once_each [UploadRequest ''test3.pdf'' challenge, UploadRequestAck ''test3.pdf'',
                 UploadTransferAck ''test3.pdf'' upload_read_digest,
                 ReadRequest ''test3.pdf'', ReadRequestAck ''test3.pdf'' ''www.test3.com'']
        (new_events demo_state (snd (another_file_upload_read demo_env ''0xC'' demo_state)))"
    using once runs(7) by blast
  moreover have "equipped (self demo_state)"
    by (simp add: equipped_def demo_defs)
  ultimately show ?thesis
    using demo_cloud_sla_creation_activation demo_sequence_upload demo_sequence_read
      demo_sequence_file demo_delete_file demo_read_deny_lost_file_check
      demo_another_file_upload_read demo_sequence_upload_builds reliable_demo_env
    by simp
qed

end
